theory Spec2Isabelle
  imports Complex_Main
begin

section \<open>ITB-100 thermal battery: the charge/discharge model\<close>

text \<open>
  A shallow embedding of \<^verbatim>\<open>src/models/itb100_system_model.py\<close>: the dataclass
  \<^verbatim>\<open>ITB100Specs\<close>, the class \<^verbatim>\<open>ThermalBatteryModel\<close> with its two step
  methods, and the drivers \<^verbatim>\<open>simulate_discharge\<close> and \<^verbatim>\<open>simulate_charge\<close>.

  Python floats are modelled as real numbers: arithmetic is exact, \<^verbatim>\<open>np.exp\<close> is the real
  exponential, and there are no infinities or NaNs. The one exception is the clock of the
  two simulation loops: \<^verbatim>\<open>time += dt\<close> steers the exit of the discharge loop, and a
  floating-point sum of a large and a tiny number is the large number again, so this
  addition is modelled with the rounding of IEEE binary64 (\<open>float_add\<close> below). A method
  that mutates \<^verbatim>\<open>self\<close> takes the object and returns the updated one. A raised exception
  is the \<open>Inl\<close> branch of a sum.

  Division: \<^verbatim>\<open>UA_effective / (m_dot_design * cp_water)\<close> divides two Python numbers and
  raises \<^verbatim>\<open>ZeroDivisionError\<close> on a zero divisor; that is a branch of the model. The
  other divisions of the step methods and of \<^verbatim>\<open>get_state_of_charge\<close> have a numpy scalar
  as dividend once a step has run, and numpy returns a non-finite value instead of raising.
  The reals have no such value, so these divisions are written with the division of
  \<^typ>\<open>real\<close>, and every statement below whose truth depends on one of them assumes a
  non-zero divisor (\<open>valid_specs\<close>).
\<close>

datatype error = ZeroDivisionError | IndexError

subsection \<open>\<^verbatim>\<open>ITB100Specs\<close>\<close>

record ITB100Specs =
  T_phase :: real
  T_phase_K :: real
  delta_H_fusion :: real
  k_sat_solid :: real
  k_sat_liquid :: real
  rho_sat_solid :: real
  rho_sat_liquid :: real
  cp_sat_solid :: real
  cp_sat_liquid :: real
  M_sat :: real
  A_hx :: real
  delta_sat :: real
  V_total :: real
  L_tube :: real
  D_tube :: real
  N_plates :: int
  t_plate :: real
  k_aluminum :: real
  m_dot_design :: real
  cp_water :: real
  UA_effective :: real
  Q_discharge_target :: real
  Q_charge_target :: real
  t_charge_design :: real
  t_discharge_design :: real
  E_storage :: real
  capital_cost :: real
  lifetime_cycles :: int
  lifetime_years :: real

text \<open>The field defaults of the dataclass, i.e. the value of \<^verbatim>\<open>ITB100Specs()\<close>.\<close>

definition ITB100Specs_defaults :: ITB100Specs where
  "ITB100Specs_defaults =
     \<lparr> T_phase = 58, T_phase_K = 331.15, delta_H_fusion = 264400,
       k_sat_solid = 0.5, k_sat_liquid = 0.54,
       rho_sat_solid = 1450, rho_sat_liquid = 1280,
       cp_sat_solid = 2100, cp_sat_liquid = 3500,
       M_sat = 227.1, A_hx = 26.1, delta_sat = 0.003, V_total = 0.16,
       L_tube = 4, D_tube = 0.01905, N_plates = 52, t_plate = 0.002, k_aluminum = 205,
       m_dot_design = 0.074, cp_water = 4186,
       UA_effective = 111.7,
       Q_discharge_target = 2010, Q_charge_target = 2780,
       t_charge_design = 6, t_discharge_design = 8.29,
       E_storage = 16.71,
       capital_cost = 3500, lifetime_cycles = 1000, lifetime_years = 10 \<rparr>"

text \<open>
  The constructor generated by \<^verbatim>\<open>@dataclass\<close> stores each argument in its field. The
  class has no \<^verbatim>\<open>__post_init__\<close> and no other check, so no branch raises. The argument
  \<open>given\<close> is the record of the values passed (defaults filled in).
\<close>

definition ITB100Specs_init :: "ITB100Specs \<Rightarrow> error + ITB100Specs" where
  "ITB100Specs_init given = Inr given"

subsection \<open>\<^verbatim>\<open>ThermalBatteryModel\<close>\<close>

record ThermalBatteryModel =
  specs :: ITB100Specs
  T_sat :: real
  solid_fraction :: real
  E_stored :: real
  time :: real

definition reset_state :: "ThermalBatteryModel \<Rightarrow> ThermalBatteryModel" where
  "reset_state self = self\<lparr> T_sat := 20, solid_fraction := 1, E_stored := 0, time := 0 \<rparr>"

text \<open>
  \<^verbatim>\<open>__init__\<close> stores the specs and calls \<^verbatim>\<open>reset_state\<close>, which creates the four
  state attributes; nothing is checked and nothing raises.
\<close>

definition ThermalBatteryModel_init :: "ITB100Specs \<Rightarrow> error + ThermalBatteryModel" where
  "ThermalBatteryModel_init sp =
     Inr (reset_state \<lparr> specs = sp, T_sat = 20, solid_fraction = 1, E_stored = 0, time = 0 \<rparr>)"

definition get_state_of_charge :: "ThermalBatteryModel \<Rightarrow> real" where
  "get_state_of_charge self =
     (let E_max = E_storage (specs self) * 3600000
      in max 0 (min 1 (E_stored self / E_max)))"

text \<open>
  \<^verbatim>\<open>step_discharge\<close> returns the updated object with the pair
  \<^verbatim>\<open>(Q_actual, T_water_out)\<close>. The two guards return before anything is written, also
  before \<^verbatim>\<open>self.time += dt\<close>.
\<close>

definition step_discharge ::
  "ThermalBatteryModel \<Rightarrow> real \<Rightarrow> real \<Rightarrow> error + (ThermalBatteryModel \<times> real \<times> real)" where
  "step_discharge self T_water_in dt =
     (let sp = specs self in
      if solid_fraction self \<ge> 0.99 \<and> T_sat self < T_phase sp then Inr (self, 0, T_water_in)
      else if T_sat self \<le> T_water_in + 0.5 then Inr (self, 0, T_water_in)
      else if m_dot_design sp * cp_water sp = 0 then Inl ZeroDivisionError
      else
        let NTU = UA_effective sp / (m_dot_design sp * cp_water sp);
            effectiveness = 1 - exp (- NTU);
            Q_max = m_dot_design sp * cp_water sp * (T_sat self - T_water_in);
            Q_actual = max 0 (effectiveness * Q_max);
            T_water_out =
              (if Q_actual > 0 then T_water_in + Q_actual / (m_dot_design sp * cp_water sp)
               else T_water_in)
        in
          if Q_actual > 0 then
            let dE = Q_actual * dt in
            if T_sat self > T_phase sp + 0.1 then
              let dT = dE / (M_sat sp * cp_sat_liquid sp);
                  T_new = T_sat self - dT
              in Inr (self\<lparr> T_sat := (if T_new \<le> T_phase sp then T_phase sp else T_new),
                             E_stored := E_stored self - dE,
                             time := time self + dt \<rparr>,
                      Q_actual, T_water_out)
            else if solid_fraction self < 0.99 then
              let dm_solidified = dE / delta_H_fusion sp
              in Inr (self\<lparr> solid_fraction := min 1 (solid_fraction self + dm_solidified / M_sat sp),
                             E_stored := E_stored self - dE,
                             T_sat := T_phase sp,
                             time := time self + dt \<rparr>,
                      Q_actual, T_water_out)
            else
              let dT = dE / (M_sat sp * cp_sat_solid sp)
              in Inr (self\<lparr> T_sat := T_sat self - dT,
                             E_stored := E_stored self - dE,
                             time := time self + dt \<rparr>,
                      0, T_water_out)
          else Inr (self\<lparr> time := time self + dt \<rparr>, Q_actual, T_water_out))"

definition step_charge ::
  "ThermalBatteryModel \<Rightarrow> real \<Rightarrow> real \<Rightarrow> error + (ThermalBatteryModel \<times> real \<times> real)" where
  "step_charge self T_water_in dt =
     (let sp = specs self in
      if solid_fraction self \<le> 0.01 \<and> T_sat self \<ge> T_phase sp + 5 then Inr (self, 0, T_water_in)
      else if T_water_in \<le> T_sat self + 0.5 then Inr (self, 0, T_water_in)
      else if m_dot_design sp * cp_water sp = 0 then Inl ZeroDivisionError
      else
        let NTU = UA_effective sp / (m_dot_design sp * cp_water sp);
            effectiveness = 1 - exp (- NTU);
            Q_max = m_dot_design sp * cp_water sp * (T_water_in - T_sat self);
            Q_actual = max 0 (effectiveness * Q_max);
            T_water_out =
              (if Q_actual > 0 then T_water_in - Q_actual / (m_dot_design sp * cp_water sp)
               else T_water_in)
        in
          if Q_actual > 0 then
            let dE = Q_actual * dt in
            if T_sat self < T_phase sp - 0.1 then
              let dT = dE / (M_sat sp * cp_sat_solid sp);
                  T_new = T_sat self + dT
              in Inr (self\<lparr> T_sat := (if T_new \<ge> T_phase sp then T_phase sp else T_new),
                             E_stored := E_stored self + dE,
                             time := time self + dt \<rparr>,
                      Q_actual, T_water_out)
            else if solid_fraction self > 0.01 then
              let dm_melted = dE / delta_H_fusion sp
              in Inr (self\<lparr> solid_fraction := max 0 (solid_fraction self - dm_melted / M_sat sp),
                             E_stored := E_stored self + dE,
                             T_sat := T_phase sp,
                             time := time self + dt \<rparr>,
                      Q_actual, T_water_out)
            else
              let dT = dE / (M_sat sp * cp_sat_liquid sp)
              in Inr (self\<lparr> T_sat := T_sat self + dT,
                             E_stored := E_stored self + dE,
                             time := time self + dt \<rparr>,
                      Q_actual, T_water_out)
          else Inr (self\<lparr> time := time self + dt \<rparr>, Q_actual, T_water_out))"

subsection \<open>The clock: binary64 addition\<close>

text \<open>
  A Python float is an IEEE binary64 number, and \<^verbatim>\<open>+\<close> returns the exact sum rounded to the
  nearest such number, ties to the one with an even significand. A positive binary64 number
  in the binade \<open>[2^e, 2^(e+1))\<close> is a multiple of \<open>2^(e-52)\<close>, the spacing there. Subnormal
  numbers (below \<open>2^-1022\<close>) and overflow (above about \<open>1.8e308\<close>) are left out. Only the
  additions to the clock are rounded; the conversions of the recorded samples
  (\<^verbatim>\<open>time / 3600\<close>, \<^verbatim>\<open>Q_actual / 1000\<close>) stay exact.
\<close>

definition round_half_even :: "real \<Rightarrow> int" where
  "round_half_even y =
     (let f = \<lfloor>y\<rfloor>; r = y - of_int f
      in if r < 1 / 2 then f else if r > 1 / 2 then f + 1 else if even f then f else f + 1)"

definition double_round :: "real \<Rightarrow> real" where
  "double_round x =
     (if x = 0 then 0
      else let e = \<lfloor>log 2 \<bar>x\<bar>\<rfloor>; ulp = 2 powr (of_int e - 52)
           in of_int (round_half_even (x / ulp)) * ulp)"

definition float_add :: "real \<Rightarrow> real \<Rightarrow> real" where
  "float_add a b = double_round (a + b)"

subsection \<open>\<^verbatim>\<open>simulate_discharge\<close>\<close>

text \<open>
  The six history lists grow together, one element each per iteration, so they are kept
  as one list of samples: \<^verbatim>\<open>result['Q'][i]\<close> is \<open>Q_h (history r ! i)\<close>, and so on.
  \<^verbatim>\<open>time_history\<close> is in hours and \<^verbatim>\<open>Q_history\<close> in kW.
\<close>

record sample =
  time_h :: real
  T_sat_h :: real
  T_out_h :: real
  Q_h :: real
  SOC_h :: real
  solid_fraction_h :: real

text \<open>\<^verbatim>\<open>np.trapz(y, x)\<close> and \<^verbatim>\<open>np.mean\<close> on lists (the mean of no values is NaN in numpy).\<close>

fun trapz :: "real list \<Rightarrow> real list \<Rightarrow> real" where
  "trapz (y0 # y1 # ys) (x0 # x1 # xs) = (x1 - x0) * (y0 + y1) / 2 + trapz (y1 # ys) (x1 # xs)"
| "trapz ys xs = 0"

definition mean :: "real list \<Rightarrow> real" where
  "mean xs = sum_list xs / real (length xs)"

record 'a result =
  history :: "'a list"
  total_energy :: real
  avg_power :: real
  duration :: real

definition summary :: "('a \<Rightarrow> real) \<Rightarrow> ('a \<Rightarrow> real) \<Rightarrow> 'a list \<Rightarrow> 'a result" where
  "summary tm q hist =
     \<lparr> history = hist,
       total_energy = trapz (map q hist) (map tm hist),
       avg_power = mean (map q hist),
       duration = (if length hist > 0 then tm (last hist) else 0) \<rparr>"

text \<open>
  The \<^verbatim>\<open>while time < max_time\<close> loop. For \<open>dt \<le> 0\<close>, or for a \<open>dt\<close> so small that
  \<^verbatim>\<open>time += dt\<close> leaves \<^verbatim>\<open>time\<close> as it is, the clock does not advance and the loop need
  not end, so the loop is a partial function: \<open>None\<close> is "does not return",
  \<open>Some (Inl e)\<close> an exception raised by the step, \<open>Some (Inr hist)\<close> the histories at
  loop exit.
\<close>

partial_function (option) discharge_loop ::
  "ThermalBatteryModel \<Rightarrow> real \<Rightarrow> real \<Rightarrow> real \<Rightarrow> sample list \<Rightarrow> (error + sample list) option" where
  "discharge_loop model T_supply dt tm hist =
     (if tm < 12 * 3600 then
        (case step_discharge model T_supply dt of
           Inl e \<Rightarrow> Some (Inl e)
         | Inr (model', Q_actual, T_out) \<Rightarrow>
             let hist' = hist @ [\<lparr> time_h = tm / 3600, T_sat_h = T_sat model', T_out_h = T_out,
                                   Q_h = Q_actual / 1000, SOC_h = get_state_of_charge model',
                                   solid_fraction_h = solid_fraction model' \<rparr>];
                 tm' = float_add tm dt
             in if get_state_of_charge model' < 0.01 \<or> (Q_actual < 100 \<and> tm' > 3600)
                then Some (Inr hist')
                else discharge_loop model' T_supply dt tm' hist')
      else Some (Inr hist))"

text \<open>The model object as \<^verbatim>\<open>simulate_discharge\<close> sets it up: fully charged.\<close>

definition charged_model :: "ThermalBatteryModel \<Rightarrow> ThermalBatteryModel" where
  "charged_model model =
     model\<lparr> T_sat := T_phase (specs model), solid_fraction := 0.05,
             E_stored := E_storage (specs model) * 3600000 \<rparr>"

definition simulate_discharge ::
  "ITB100Specs \<Rightarrow> real \<Rightarrow> real \<Rightarrow> real \<Rightarrow> (error + sample result) option" where
  "simulate_discharge sp T_supply T_return_target dt =
     (case ThermalBatteryModel_init sp of
        Inl e \<Rightarrow> Some (Inl e)
      | Inr model \<Rightarrow>
          (case discharge_loop (charged_model model) T_supply dt 0 [] of
             None \<Rightarrow> None
           | Some (Inl e) \<Rightarrow> Some (Inl e)
           | Some (Inr hist) \<Rightarrow> Some (Inr (summary time_h Q_h hist))))"

subsection \<open>\<^verbatim>\<open>simulate_charge\<close>\<close>

record charge_sample = sample +
  Q_available_h :: real

text \<open>
  \<^verbatim>\<open>for i in range(len(solar_profile))\<close>: the loop walks both arrays from index 0, and
  \<^verbatim>\<open>T_collector[i]\<close> raises \<^verbatim>\<open>IndexError\<close> when \<^verbatim>\<open>T_collector\<close> is the shorter one.
\<close>

fun charge_loop ::
  "ThermalBatteryModel \<Rightarrow> real \<Rightarrow> real \<Rightarrow> charge_sample list \<Rightarrow> real list \<Rightarrow> real list
     \<Rightarrow> error + charge_sample list" where
  "charge_loop model dt tm hist [] T_collector = Inr hist"
| "charge_loop model dt tm hist (Q_available # solar_profile) [] = Inl IndexError"
| "charge_loop model dt tm hist (Q_available # solar_profile) (T_in # T_collector) =
     (case step_charge model T_in dt of
        Inl e \<Rightarrow> Inl e
      | Inr (model', Q_engine, T_out) \<Rightarrow>
          let Q_actual = min Q_engine Q_available;
              hist' = hist @ [\<lparr> time_h = tm / 3600, T_sat_h = T_sat model', T_out_h = T_out,
                                Q_h = Q_actual / 1000, SOC_h = get_state_of_charge model',
                                solid_fraction_h = solid_fraction model',
                                Q_available_h = Q_available / 1000 \<rparr>];
              tm' = float_add tm dt
          in if get_state_of_charge model' \<ge> 0.99 then Inr hist'
             else charge_loop model' dt tm' hist' solar_profile T_collector)"

text \<open>The model object as \<^verbatim>\<open>simulate_charge\<close> sets it up: depleted.\<close>

definition depleted_model :: "ThermalBatteryModel \<Rightarrow> ThermalBatteryModel" where
  "depleted_model model = model\<lparr> T_sat := 20, solid_fraction := 1, E_stored := 0 \<rparr>"

definition simulate_charge ::
  "ITB100Specs \<Rightarrow> real list \<Rightarrow> real list \<Rightarrow> real \<Rightarrow> error + charge_sample result" where
  "simulate_charge sp solar_profile T_collector dt =
     (case ThermalBatteryModel_init sp of
        Inl e \<Rightarrow> Inl e
      | Inr model \<Rightarrow>
          (case charge_loop (depleted_model model) dt 0 [] solar_profile T_collector of
             Inl e \<Rightarrow> Inl e
           | Inr hist \<Rightarrow> Inr (summary time_h Q_h hist)))"

section \<open>Notions used by the statements\<close>

text \<open>
  The parameter sets the specification calls valid: the quantities the model divides by,
  and the conductance, are positive.
\<close>

definition valid_specs :: "ITB100Specs \<Rightarrow> bool" where
  "valid_specs sp \<longleftrightarrow>
     0 < delta_H_fusion sp \<and> 0 < M_sat sp \<and> 0 < cp_sat_solid sp \<and> 0 < cp_sat_liquid sp \<and>
     0 < m_dot_design sp \<and> 0 < cp_water sp \<and> 0 < UA_effective sp \<and> 0 < E_storage sp"

text \<open>
  The transfer power as the specification writes it, for a driving temperature
  difference \<open>dT\<close>: \<^verbatim>\<open>max(0, (1 - exp(-UA/(m_dot * cp_water))) * m_dot * cp_water * dT)\<close>.
\<close>

definition spec_transfer_power :: "ITB100Specs \<Rightarrow> real \<Rightarrow> real" where
  "spec_transfer_power sp dT =
     max 0 ((1 - exp (- (UA_effective sp / (m_dot_design sp * cp_water sp))))
              * m_dot_design sp * cp_water sp * dT)"

text \<open>The guards of the two step methods, as their first two \<^verbatim>\<open>if\<close> statements test them.\<close>

definition discharge_guard :: "ThermalBatteryModel \<Rightarrow> real \<Rightarrow> bool" where
  "discharge_guard self T_water_in \<longleftrightarrow>
     (solid_fraction self \<ge> 0.99 \<and> T_sat self < T_phase (specs self))
     \<or> T_sat self \<le> T_water_in + 0.5"

definition charge_guard :: "ThermalBatteryModel \<Rightarrow> real \<Rightarrow> bool" where
  "charge_guard self T_water_in \<longleftrightarrow>
     (solid_fraction self \<le> 0.01 \<and> T_sat self \<ge> T_phase (specs self) + 5)
     \<or> T_water_in \<le> T_sat self + 0.5"

text \<open>
  The plateau predicate the step methods maintain: strictly between the two thresholds
  that the methods use for "fully liquid" (0.01) and "fully solid" (0.99), the medium sits
  at the phase-change temperature.
\<close>

definition plateau :: "ThermalBatteryModel \<Rightarrow> bool" where
  "plateau self \<longleftrightarrow>
     (0.01 < solid_fraction self \<and> solid_fraction self < 0.99
        \<longrightarrow> T_sat self = T_phase (specs self))"

text \<open>
  The states a run can reach: a freshly constructed or reset object, the two start states
  the drivers set up, and whatever the step methods make of a reachable state.
\<close>

inductive reachable :: "ThermalBatteryModel \<Rightarrow> bool" where
  constructed: "ThermalBatteryModel_init sp = Inr self \<Longrightarrow> reachable self"
| reset: "reachable self \<Longrightarrow> reachable (reset_state self)"
| charged: "reachable self \<Longrightarrow> reachable (charged_model self)"
| depleted: "reachable self \<Longrightarrow> reachable (depleted_model self)"
| discharged_step:
    "reachable self \<Longrightarrow> step_discharge self T_water_in dt = Inr (self', Q, T_out)
       \<Longrightarrow> reachable self'"
| charged_step:
    "reachable self \<Longrightarrow> step_charge self T_water_in dt = Inr (self', Q, T_out)
       \<Longrightarrow> reachable self'"

text \<open>
  An uninterrupted sequence of steps of one kind, each with its own inlet temperature and
  time step; an exception ends the sequence.
\<close>

fun discharge_run :: "ThermalBatteryModel \<Rightarrow> (real \<times> real) list \<Rightarrow> error + ThermalBatteryModel" where
  "discharge_run self [] = Inr self"
| "discharge_run self ((T_water_in, dt) # rest) =
     (case step_discharge self T_water_in dt of
        Inl e \<Rightarrow> Inl e
      | Inr (self', Q, T_out) \<Rightarrow> discharge_run self' rest)"

fun charge_run :: "ThermalBatteryModel \<Rightarrow> (real \<times> real) list \<Rightarrow> error + ThermalBatteryModel" where
  "charge_run self [] = Inr self"
| "charge_run self ((T_water_in, dt) # rest) =
     (case step_charge self T_water_in dt of
        Inl e \<Rightarrow> Inl e
      | Inr (self', Q, T_out) \<Rightarrow> charge_run self' rest)"

text \<open>
  The clock of a simulation loop after \<open>n\<close> iterations, started at \<open>tm\<close>.
\<close>

fun clock_after :: "real \<Rightarrow> real \<Rightarrow> nat \<Rightarrow> real" where
  "clock_after tm dt 0 = tm"
| "clock_after tm dt (Suc n) = clock_after (float_add tm dt) dt n"

text \<open>
  The plateau predicate as the specification states it, over the whole open interval.
\<close>

definition spec_plateau :: "ThermalBatteryModel \<Rightarrow> bool" where
  "spec_plateau self \<longleftrightarrow>
     (0 < solid_fraction self \<and> solid_fraction self < 1
        \<longrightarrow> T_sat self = T_phase (specs self))"

text \<open>
  A model object over the default parameters, with the given temperature, solid fraction
  and stored energy, at time 0; used for the concrete instances below.
\<close>

definition example_model :: "real \<Rightarrow> real \<Rightarrow> real \<Rightarrow> ThermalBatteryModel" where
  "example_model T f E =
     \<lparr> specs = ITB100Specs_defaults, T_sat = T, solid_fraction = f, E_stored = E, time = 0 \<rparr>"

section \<open>Basic facts about the step methods\<close>

lemma valid_defaults: "valid_specs ITB100Specs_defaults"
  by (simp add: valid_specs_def ITB100Specs_defaults_def)

lemma effectiveness_pos:
  assumes "valid_specs sp"
  shows "0 < 1 - exp (- (UA_effective sp / (m_dot_design sp * cp_water sp)))"
proof -
  have "0 < UA_effective sp / (m_dot_design sp * cp_water sp)"
    using assms by (simp add: valid_specs_def)
  then show ?thesis by simp
qed

lemma step_discharge_guarded:
  "discharge_guard self T_in \<Longrightarrow> step_discharge self T_in dt = Inr (self, 0, T_in)"
  unfolding discharge_guard_def by (elim disjE conjE; simp add: step_discharge_def Let_def)

lemma step_charge_guarded:
  "charge_guard self T_in \<Longrightarrow> step_charge self T_in dt = Inr (self, 0, T_in)"
  unfolding charge_guard_def by (elim disjE conjE; simp add: step_charge_def Let_def)

lemma step_discharge_specs:
  "step_discharge self T_in dt = Inr (self', Q, T_out) \<Longrightarrow> specs self' = specs self"
  by (auto simp: step_discharge_def Let_def split: if_splits)

lemma step_charge_specs:
  "step_charge self T_in dt = Inr (self', Q, T_out) \<Longrightarrow> specs self' = specs self"
  by (auto simp: step_charge_def Let_def split: if_splits)

lemma step_discharge_plateau:
  "step_discharge self T_in dt = Inr (self', Q, T_out) \<Longrightarrow> plateau self \<Longrightarrow> plateau self'"
  by (auto simp: step_discharge_def plateau_def Let_def split: if_splits)

lemma step_charge_plateau:
  "step_charge self T_in dt = Inr (self', Q, T_out) \<Longrightarrow> plateau self \<Longrightarrow> plateau self'"
  by (auto simp: step_charge_def plateau_def Let_def split: if_splits)


lemma step_discharge_unguarded:
  assumes "\<not> discharge_guard self T_in" and "m_dot_design (specs self) * cp_water (specs self) \<noteq> 0"
  defines "P \<equiv> spec_transfer_power (specs self) (T_sat self - T_in)"
  shows "\<exists>self' Q. step_discharge self T_in dt
            = Inr (self', Q, T_in + P / (m_dot_design (specs self) * cp_water (specs self)))
          \<and> E_stored self' = E_stored self - P * dt
          \<and> time self' = time self + dt
          \<and> Q = (if 0 < P \<and> \<not> T_sat self > T_phase (specs self) + 0.1 \<and> \<not> solid_fraction self < 0.99
                 then 0 else P)"
  using assms(1,2) unfolding P_def
  by (simp add: discharge_guard_def step_discharge_def spec_transfer_power_def Let_def mult.assoc)

lemma step_charge_unguarded:
  assumes "\<not> charge_guard self T_in" and "m_dot_design (specs self) * cp_water (specs self) \<noteq> 0"
  defines "P \<equiv> spec_transfer_power (specs self) (T_in - T_sat self)"
  shows "\<exists>self'. step_charge self T_in dt
            = Inr (self', P, T_in - P / (m_dot_design (specs self) * cp_water (specs self)))
          \<and> E_stored self' = E_stored self + P * dt
          \<and> time self' = time self + dt"
  using assms(1,2) unfolding P_def
  by (simp add: charge_guard_def step_charge_def spec_transfer_power_def Let_def mult.assoc)

lemma valid_flow_pos: "valid_specs sp \<Longrightarrow> 0 < m_dot_design sp * cp_water sp"
  by (simp add: valid_specs_def)

lemma transfer_power_nonneg: "0 \<le> spec_transfer_power sp dT"
  by (simp add: spec_transfer_power_def)

lemma transfer_power_pos:
  assumes "valid_specs sp" and "0 < dT"
  shows "0 < spec_transfer_power sp dT"
proof -
  have "0 < (1 - exp (- (UA_effective sp / (m_dot_design sp * cp_water sp))))
              * (m_dot_design sp * cp_water sp) * dT"
    using effectiveness_pos [OF assms(1)] valid_flow_pos [OF assms(1)] assms(2) by simp
  then show ?thesis by (simp add: spec_transfer_power_def mult.assoc)
qed

lemma step_discharge_total:
  assumes "valid_specs (specs self)"
  shows "\<exists>self' Q T_out. step_discharge self T_in dt = Inr (self', Q, T_out)"
proof (cases "discharge_guard self T_in")
  case True
  then show ?thesis using step_discharge_guarded by blast
next
  case False
  then show ?thesis
    using step_discharge_unguarded [of self T_in dt] valid_flow_pos [OF assms] by fastforce
qed

lemma step_charge_total:
  assumes "valid_specs (specs self)"
  shows "\<exists>self' Q T_out. step_charge self T_in dt = Inr (self', Q, T_out)"
proof (cases "charge_guard self T_in")
  case True
  then show ?thesis using step_charge_guarded by blast
next
  case False
  then show ?thesis
    using step_charge_unguarded [of self T_in dt] valid_flow_pos [OF assms] by fastforce
qed

lemma step_discharge_energy:
  assumes "step_discharge self T_in dt = Inr (self', Q, T_out)" and "0 \<le> dt"
  shows "E_stored self' \<le> E_stored self"
proof (cases "discharge_guard self T_in")
  case True
  then show ?thesis using step_discharge_guarded [of self T_in dt] assms(1) by simp
next
  case False
  have "m_dot_design (specs self) * cp_water (specs self) \<noteq> 0"
    using assms(1) False by (auto simp: step_discharge_def discharge_guard_def Let_def split: if_splits)
  from step_discharge_unguarded [OF False this, of dt] assms(1)
  have "E_stored self' = E_stored self - spec_transfer_power (specs self) (T_sat self - T_in) * dt"
    by auto
  then show ?thesis
    using transfer_power_nonneg [of "specs self" "T_sat self - T_in"] assms(2) by simp
qed

lemma step_charge_energy:
  assumes "step_charge self T_in dt = Inr (self', Q, T_out)" and "0 \<le> dt"
  shows "E_stored self \<le> E_stored self'"
proof (cases "charge_guard self T_in")
  case True
  then show ?thesis using step_charge_guarded [of self T_in dt] assms(1) by simp
next
  case False
  have "m_dot_design (specs self) * cp_water (specs self) \<noteq> 0"
    using assms(1) False by (auto simp: step_charge_def charge_guard_def Let_def split: if_splits)
  from step_charge_unguarded [OF False this, of dt] assms(1)
  have "E_stored self' = E_stored self + spec_transfer_power (specs self) (T_in - T_sat self) * dt"
    by auto
  then show ?thesis
    using transfer_power_nonneg [of "specs self" "T_in - T_sat self"] assms(2) by simp
qed

lemma soc_bounds: "0 \<le> get_state_of_charge self \<and> get_state_of_charge self \<le> 1"
  by (simp add: get_state_of_charge_def Let_def)

lemma soc_mono:
  assumes "0 < E_storage (specs a)" and "specs b = specs a" and "E_stored a \<le> E_stored b"
  shows "get_state_of_charge a \<le> get_state_of_charge b"
proof -
  have "E_stored a / (E_storage (specs a) * 3600000) \<le> E_stored b / (E_storage (specs a) * 3600000)"
    using assms(1,3) by (simp add: divide_right_mono)
  then show ?thesis
    using assms(2) by (simp add: get_state_of_charge_def Let_def min_def max_def)
qed

lemma step_discharge_fraction_cases:
  assumes "step_discharge self T_in dt = Inr (self', Q, T_out)"
  shows "solid_fraction self' = solid_fraction self
       \<or> solid_fraction self' =
            min 1 (solid_fraction self
                   + spec_transfer_power (specs self) (T_sat self - T_in) * dt
                       / delta_H_fusion (specs self) / M_sat (specs self))"
  using assms
  by (auto simp: step_discharge_def spec_transfer_power_def Let_def mult.assoc split: if_splits)

lemma step_charge_fraction_cases:
  assumes "step_charge self T_in dt = Inr (self', Q, T_out)"
  shows "solid_fraction self' = solid_fraction self
       \<or> solid_fraction self' =
            max 0 (solid_fraction self
                   - spec_transfer_power (specs self) (T_in - T_sat self) * dt
                       / delta_H_fusion (specs self) / M_sat (specs self))"
  using assms
  by (auto simp: step_charge_def spec_transfer_power_def Let_def mult.assoc split: if_splits)

lemma latent_share_nonneg:
  assumes "valid_specs sp" and "0 \<le> dt"
  shows "0 \<le> spec_transfer_power sp dT * dt / delta_H_fusion sp / M_sat sp"
proof -
  have "0 < delta_H_fusion sp" "0 < M_sat sp"
    using assms(1) by (simp_all add: valid_specs_def)
  moreover have "0 \<le> spec_transfer_power sp dT * dt"
    using transfer_power_nonneg [of sp dT] assms(2) by simp
  ultimately show ?thesis by simp
qed

lemma step_discharge_fraction:
  assumes "valid_specs (specs self)" and "0 \<le> dt"
    and "0 \<le> solid_fraction self" and "solid_fraction self \<le> 1"
    and "step_discharge self T_in dt = Inr (self', Q, T_out)"
  shows "0 \<le> solid_fraction self' \<and> solid_fraction self' \<le> 1"
  using step_discharge_fraction_cases [OF assms(5)]
    latent_share_nonneg [OF assms(1,2), of "T_sat self - T_in"] assms(3,4)
  by (elim disjE) (simp_all add: min_def)

lemma step_charge_fraction:
  assumes "valid_specs (specs self)" and "0 \<le> dt"
    and "0 \<le> solid_fraction self" and "solid_fraction self \<le> 1"
    and "step_charge self T_in dt = Inr (self', Q, T_out)"
  shows "0 \<le> solid_fraction self' \<and> solid_fraction self' \<le> 1"
  using step_charge_fraction_cases [OF assms(5)]
    latent_share_nonneg [OF assms(1,2), of "T_in - T_sat self"] assms(3,4)
  by (elim disjE) (simp_all add: max_def)

lemma example_model_simps [simp]:
  "specs (example_model T f E) = ITB100Specs_defaults"
  "T_sat (example_model T f E) = T"
  "solid_fraction (example_model T f E) = f"
  "E_stored (example_model T f E) = E"
  "time (example_model T f E) = 0"
  by (simp_all add: example_model_def)

lemma defaults_simps [simp]:
  "T_phase ITB100Specs_defaults = 58"
  "m_dot_design ITB100Specs_defaults = 0.074"
  "cp_water ITB100Specs_defaults = 4186"
  "M_sat ITB100Specs_defaults = 227.1"
  "cp_sat_solid ITB100Specs_defaults = 2100"
  "cp_sat_liquid ITB100Specs_defaults = 3500"
  "E_storage ITB100Specs_defaults = 16.71"
  by (simp_all add: ITB100Specs_defaults_def)

lemma step_discharge_solid_regime:
  assumes "\<not> discharge_guard self T_in" and "m_dot_design (specs self) * cp_water (specs self) \<noteq> 0"
    and "solid_fraction self \<ge> 0.99" and "T_sat self \<le> T_phase (specs self) + 0.1"
    and "0 < spec_transfer_power (specs self) (T_sat self - T_in)"
  shows "step_discharge self T_in dt =
           Inr (self\<lparr> T_sat := T_sat self - spec_transfer_power (specs self) (T_sat self - T_in) * dt
                                    / (M_sat (specs self) * cp_sat_solid (specs self)),
                       E_stored := E_stored self - spec_transfer_power (specs self) (T_sat self - T_in) * dt,
                       time := time self + dt \<rparr>,
                0,
                T_in + spec_transfer_power (specs self) (T_sat self - T_in)
                         / (m_dot_design (specs self) * cp_water (specs self)))"
  using assms
  by (simp add: discharge_guard_def step_discharge_def spec_transfer_power_def Let_def mult.assoc less_max_iff_disj)

lemma step_charge_liquid_regime:
  assumes "\<not> charge_guard self T_in" and "m_dot_design (specs self) * cp_water (specs self) \<noteq> 0"
    and "solid_fraction self \<le> 0.01" and "T_sat self \<ge> T_phase (specs self) - 0.1"
    and "0 < spec_transfer_power (specs self) (T_in - T_sat self)"
  shows "step_charge self T_in dt =
           Inr (self\<lparr> T_sat := T_sat self + spec_transfer_power (specs self) (T_in - T_sat self) * dt
                                    / (M_sat (specs self) * cp_sat_liquid (specs self)),
                       E_stored := E_stored self + spec_transfer_power (specs self) (T_in - T_sat self) * dt,
                       time := time self + dt \<rparr>,
                spec_transfer_power (specs self) (T_in - T_sat self),
                T_in - spec_transfer_power (specs self) (T_in - T_sat self)
                         / (m_dot_design (specs self) * cp_water (specs self)))"
  using assms
  by (simp add: charge_guard_def step_charge_def spec_transfer_power_def Let_def mult.assoc less_max_iff_disj)

subsection \<open>Rounding of the clock\<close>

lemma round_half_even_floor: "\<lfloor>y\<rfloor> \<le> round_half_even y \<and> round_half_even y \<le> \<lfloor>y\<rfloor> + 1"
  by (simp add: round_half_even_def Let_def)

lemma round_half_even_near: "y - 1 / 2 \<le> of_int (round_half_even y)"
proof (cases "y - of_int \<lfloor>y\<rfloor> < 1 / 2")
  case True
  then have "round_half_even y = \<lfloor>y\<rfloor>" by (simp add: round_half_even_def Let_def)
  then show ?thesis using True by simp
next
  case False
  have "of_int \<lfloor>y\<rfloor> \<le> (of_int (round_half_even y) :: real)"
    using round_half_even_floor [of y] by simp
  show ?thesis
  proof (cases "y - of_int \<lfloor>y\<rfloor> > 1 / 2")
    case True
    then have eq: "round_half_even y = \<lfloor>y\<rfloor> + 1" by (simp add: round_half_even_def Let_def)
    have "y - 1 / 2 \<le> of_int (\<lfloor>y\<rfloor> + 1)" by simp linarith
    then show ?thesis by (simp only: eq)
  next
    case half: False
    then have "y - 1 / 2 = of_int \<lfloor>y\<rfloor>" using False by simp
    then show ?thesis using \<open>of_int \<lfloor>y\<rfloor> \<le> (of_int (round_half_even y) :: real)\<close> by simp
  qed
qed

lemma binade:
  assumes "0 < x"
  shows "2 powr of_int \<lfloor>log 2 x\<rfloor> \<le> x" and "x < 2 powr (of_int \<lfloor>log 2 x\<rfloor> + 1)"
  using floor_log_eq_powr_iff [of x 2 "\<lfloor>log 2 x\<rfloor>"] assms by simp_all

lemma double_round_pos:
  assumes "0 < x"
  shows "double_round x =
           of_int (round_half_even (x / 2 powr (of_int \<lfloor>log 2 x\<rfloor> - 52)))
             * 2 powr (of_int \<lfloor>log 2 x\<rfloor> - 52)"
  using assms by (simp add: double_round_def Let_def)

lemma double_round_lower:
  assumes "0 < x"
  shows "x - x / 2 ^ 53 \<le> double_round x"
proof -
  define e where "e = \<lfloor>log 2 x\<rfloor>"
  define u :: real where "u = 2 powr (of_int e - 52)"
  have u: "0 < u" by (simp add: u_def)
  have "2 powr of_int e \<le> x" unfolding e_def by (rule binade(1) [OF assms])
  moreover have "u = 2 powr of_int e / 2 ^ 52" by (simp add: u_def powr_diff)
  ultimately have ux: "u / 2 \<le> x / 2 ^ 53" by (simp add: field_simps)
  have "(x / u - 1 / 2) * u \<le> of_int (round_half_even (x / u)) * u"
    using round_half_even_near [of "x / u"] u by (simp only: mult_le_cancel_right_pos)
  moreover have "(x / u - 1 / 2) * u = x - u / 2" using u by (simp add: field_simps)
  moreover have "double_round x = of_int (round_half_even (x / u)) * u"
    unfolding u_def e_def by (rule double_round_pos [OF assms])
  ultimately show ?thesis using ux by linarith
qed

lemma clock_advances:
  assumes "0 \<le> t" and "t < 43200" and "1 / 2 ^ 37 \<le> dt"
  shows "t + dt / 4 \<le> float_add t dt"
proof -
  have dt: "0 < dt" using assms(3) by (smt (verit) divide_pos_pos zero_less_power)
  then have pos: "0 < t + dt" using assms(1) by simp
  have "t / 2 ^ 53 \<le> 43200 / 2 ^ 53" using assms(2) by (simp add: divide_right_mono)
  also have "(43200::real) / 2 ^ 53 \<le> (7 / 10) * (1 / 2 ^ 37)" by simp
  also have "\<dots> \<le> (7 / 10) * dt" using assms(3) by simp
  finally have "t / 2 ^ 53 \<le> (7 / 10) * dt" .
  moreover have "dt / 2 ^ 53 \<le> dt / 20" using dt by (simp add: field_simps)
  ultimately have "(t + dt) / 2 ^ 53 \<le> (3 / 4) * dt" by (simp add: add_divide_distrib)
  then show ?thesis
    unfolding float_add_def using double_round_lower [OF pos] by linarith
qed

lemma clock_stalls:
  assumes "0 \<le> t" and "t \<le> 512" and "0 < d" and "d \<le> 1 / 2 ^ 44"
  shows "0 \<le> float_add t d \<and> float_add t d \<le> 512"
proof -
  define x where "x = t + d"
  define e where "e = \<lfloor>log 2 x\<rfloor>"
  define u :: real where "u = 2 powr (of_int e - 52)"
  have pos: "0 < x" using assms(1,3) by (simp add: x_def add_nonneg_pos)
  have u: "0 < u" by (simp add: u_def)
  have lo: "2 powr of_int e \<le> x" and hi: "x < 2 powr (of_int e + 1)"
    unfolding e_def by (rule binade [OF pos])+
  have fl: "float_add t d = of_int (round_half_even (x / u)) * u"
    unfolding float_add_def u_def e_def x_def [symmetric] by (rule double_round_pos [OF pos])
  have "0 \<le> x / u" using pos u by simp
  then have "0 \<le> \<lfloor>x / u\<rfloor>" by simp
  then have "0 \<le> round_half_even (x / u)" using round_half_even_floor [of "x / u"] by linarith
  then have nonneg: "0 \<le> float_add t d" using u by (simp add: fl)
  have upper: "float_add t d \<le> 512"
  proof (cases "x < 512")
    case True
    have p9: "(2::real) powr of_int (9::int) = 512" by simp
    have "(2::real) powr of_int e < 2 powr of_int (9::int)"
      unfolding p9 using lo True by linarith
    then have "real_of_int e < real_of_int 9"
      by (rule iffD1 [OF powr_less_cancel_iff, rotated]) simp
    then have e8: "e + 1 \<le> 9" by linarith
    have "x / u < 2 powr (of_int e + 1) / u" using hi u by (simp add: divide_strict_right_mono)
    also have "2 powr (of_int e + 1) / u = 2 ^ 53" by (simp add: u_def powr_diff powr_add)
    finally have "x / u < 2 ^ 53" .
    then have "\<lfloor>x / u\<rfloor> < 2 ^ 53" by (simp add: floor_less_iff)
    then have "round_half_even (x / u) \<le> 2 ^ 53" using round_half_even_floor [of "x / u"] by linarith
    then have "(of_int (round_half_even (x / u)) :: real) \<le> 2 ^ 53"
      by (metis of_int_le_iff of_int_numeral of_int_power)
    then have "float_add t d \<le> 2 ^ 53 * u"
      using u by (simp add: fl)
    also have "2 ^ 53 * u = 2 powr (of_int e + 1)" by (simp add: u_def powr_diff powr_add)
    also have "\<dots> \<le> 2 powr of_int (9::int)"
    proof (rule iffD2 [OF powr_le_cancel_iff])
      show "(1::real) < 2" by simp
      show "real_of_int e + 1 \<le> real_of_int 9" using e8 by linarith
    qed
    finally show ?thesis unfolding p9 .
  next
    case False
    then have x: "512 \<le> x" "x \<le> 512 + 1 / 2 ^ 44" using assms(2,4) by (simp_all add: x_def)
    have "(2::real) powr 9 \<le> x \<and> x < 2 powr (9 + 1)" using x by simp
    then have e9: "e = 9" unfolding e_def using floor_log_eq_powr_iff [of x 2 9] pos by simp
    have uval: "u = 1 / 2 ^ 43" by (simp add: u_def e9 powr_minus_divide)
    define y where "y = x / u"
    define N :: int where "N = 2 ^ 52"
    have y: "y = x * 2 ^ 43" by (simp add: y_def uval)
    have N: "real_of_int N = 2 ^ 52" by (simp add: N_def)
    have ylo: "real_of_int N \<le> y" using x(1) by (simp add: y N)
    have yhi: "y \<le> real_of_int N + 1 / 2" using x(2) by (simp add: y N)
    have fy: "\<lfloor>y\<rfloor> = N"
    proof (rule floor_unique)
      show "of_int N \<le> y" by (rule ylo)
      show "y < of_int N + 1" using yhi by linarith
    qed
    have frac: "y - of_int \<lfloor>y\<rfloor> \<le> 1 / 2" using yhi by (simp add: fy)
    have "round_half_even y = \<lfloor>y\<rfloor>"
    proof (cases "y - of_int \<lfloor>y\<rfloor> < 1 / 2")
      case True
      then show ?thesis by (simp add: round_half_even_def Let_def)
    next
      case False
      then have "y - of_int \<lfloor>y\<rfloor> = 1 / 2" using frac by linarith
      moreover have "even \<lfloor>y\<rfloor>" by (simp add: fy N_def)
      ultimately show ?thesis by (simp add: round_half_even_def Let_def)
    qed
    then have "float_add t d = real_of_int N * u" by (simp add: fl fy y_def [symmetric])
    then have "float_add t d = 2 ^ 52 * u" by (simp only: N)
    then show ?thesis by (simp add: uval)
  qed
  show ?thesis using nonneg upper by simp
qed

lemma round_half_even_near_upper: "of_int (round_half_even y) \<le> y + 1 / 2"
proof (cases "y - of_int \<lfloor>y\<rfloor> < 1 / 2")
  case True
  then have eq: "round_half_even y = \<lfloor>y\<rfloor>" by (simp add: round_half_even_def Let_def)
  have "of_int \<lfloor>y\<rfloor> \<le> y + 1 / 2" by linarith
  then show ?thesis by (simp only: eq)
next
  case False
  have "(of_int (round_half_even y) :: real) \<le> of_int (\<lfloor>y\<rfloor> + 1)"
    using round_half_even_floor [of y] by (simp only: of_int_le_iff)
  then show ?thesis using False by simp
qed

lemma double_round_upper:
  assumes "0 < x"
  shows "double_round x \<le> x + x / 2 ^ 53"
proof -
  define e where "e = \<lfloor>log 2 x\<rfloor>"
  define u :: real where "u = 2 powr (of_int e - 52)"
  have u: "0 < u" by (simp add: u_def)
  have "2 powr of_int e \<le> x" unfolding e_def by (rule binade(1) [OF assms])
  moreover have "u = 2 powr of_int e / 2 ^ 52" by (simp add: u_def powr_diff)
  ultimately have ux: "u / 2 \<le> x / 2 ^ 53" by (simp add: field_simps)
  have "of_int (round_half_even (x / u)) * u \<le> (x / u + 1 / 2) * u"
    using round_half_even_near_upper [of "x / u"] u by (simp only: mult_le_cancel_right_pos)
  moreover have "(x / u + 1 / 2) * u = x + u / 2" using u by (simp add: field_simps)
  moreover have "double_round x = of_int (round_half_even (x / u)) * u"
    unfolding u_def e_def by (rule double_round_pos [OF assms])
  ultimately show ?thesis using ux by linarith
qed

section \<open>The claims\<close>

text \<open>
  C3, as the code has it. The first guard of \<^verbatim>\<open>step_discharge\<close> tests
  \<^verbatim>\<open>T_sat < T_phase\<close>, strictly, as its comment says ("fully solid and below phase
  temp"). If the medium is fully solid (\<open>solid_fraction \<ge> 0.99\<close>) and strictly below the
  phase-change temperature, or if it is not more than 0.5 degrees above the inlet, the
  method returns zero power and the inlet temperature as outlet temperature.

  The claim as written ("at or below") fails at the phase-change temperature itself:
  a fully solid medium at exactly 58 degrees with a 40 degree inlet passes both guards,
  reaches the solid-cooling branch, and returns zero power with an outlet temperature
  above the inlet (the counterexample after the theorem).
\<close>
theorem discharge_guard_blocks:
  assumes "(solid_fraction self \<ge> 0.99 \<and> T_sat self < T_phase (specs self))
           \<or> T_sat self \<le> T_in + 0.5"
  shows "\<exists>self'. step_discharge self T_in dt = Inr (self', 0, T_in)"
  using step_discharge_guarded [of self T_in dt] assms
  unfolding discharge_guard_def by blast

theorem discharge_guard_blocks_witness:
  "((solid_fraction (example_model 20 1 0) \<ge> 0.99
       \<and> T_sat (example_model 20 1 0) < T_phase (specs (example_model 20 1 0)))
     \<or> T_sat (example_model 20 1 0) \<le> 40 + 0.5)
   \<and> (\<exists>self'. step_discharge (example_model 20 1 0) 40 60 = Inr (self', 0, 40))"
  using discharge_guard_blocks [of "example_model 20 1 0" 40 60] by simp

theorem discharge_at_plateau_counterexample:
  "solid_fraction (example_model 58 1 0) \<ge> 0.99
   \<and> T_sat (example_model 58 1 0) \<le> T_phase (specs (example_model 58 1 0))
   \<and> fst (snd (projr (step_discharge (example_model 58 1 0) 40 60))) = 0
   \<and> snd (snd (projr (step_discharge (example_model 58 1 0) 40 60))) > 40"
proof -
  let ?m = "example_model 58 1 0"
  have P: "0 < spec_transfer_power (specs ?m) (T_sat ?m - 40)"
    using transfer_power_pos [OF valid_defaults, of 18] by simp
  have "\<not> discharge_guard ?m 40" by (simp add: discharge_guard_def)
  moreover have "m_dot_design (specs ?m) * cp_water (specs ?m) \<noteq> 0" by simp
  ultimately have "step_discharge ?m 40 60 =
      Inr (?m\<lparr> T_sat := T_sat ?m - spec_transfer_power (specs ?m) (T_sat ?m - 40) * 60
                                    / (M_sat (specs ?m) * cp_sat_solid (specs ?m)),
                E_stored := E_stored ?m - spec_transfer_power (specs ?m) (T_sat ?m - 40) * 60,
                time := time ?m + 60 \<rparr>,
           0,
           40 + spec_transfer_power (specs ?m) (T_sat ?m - 40)
                  / (m_dot_design (specs ?m) * cp_water (specs ?m)))"
    using P by (intro step_discharge_solid_regime) simp_all
  then show ?thesis using P by simp
qed

text \<open>
  C10. When a guard of \<^verbatim>\<open>step_discharge\<close> or \<^verbatim>\<open>step_charge\<close> fires, the call returns
  zero power and the inlet temperature, and the object is returned as it was: temperature,
  solid fraction, stored energy and the clock are unchanged. On every other path that
  returns, the clock has advanced by \<open>dt\<close>.
\<close>
theorem guard_branches_preserve_state:
  "(discharge_guard self T_in \<longrightarrow> step_discharge self T_in dt = Inr (self, 0, T_in))
   \<and> (charge_guard self T_in \<longrightarrow> step_charge self T_in dt = Inr (self, 0, T_in))
   \<and> (\<not> discharge_guard self T_in \<and> step_discharge self T_in dt = Inr (self', Q, T_out)
        \<longrightarrow> time self' = time self + dt)
   \<and> (\<not> charge_guard self T_in \<and> step_charge self T_in dt = Inr (self'', Q', T_out')
        \<longrightarrow> time self'' = time self + dt)"
proof (intro conjI impI)
  assume "discharge_guard self T_in"
  then show "step_discharge self T_in dt = Inr (self, 0, T_in)" by (rule step_discharge_guarded)
next
  assume "charge_guard self T_in"
  then show "step_charge self T_in dt = Inr (self, 0, T_in)" by (rule step_charge_guarded)
next
  assume "\<not> discharge_guard self T_in \<and> step_discharge self T_in dt = Inr (self', Q, T_out)"
  then show "time self' = time self + dt"
    by (auto simp: step_discharge_def discharge_guard_def Let_def split: if_splits)
next
  assume "\<not> charge_guard self T_in \<and> step_charge self T_in dt = Inr (self'', Q', T_out')"
  then show "time self'' = time self + dt"
    by (auto simp: step_charge_def charge_guard_def Let_def split: if_splits)
qed

theorem guard_branches_preserve_state_witness:
  "(discharge_guard (example_model 20 1 0) 40
      \<and> step_discharge (example_model 20 1 0) 40 60 = Inr (example_model 20 1 0, 0, 40))
   \<and> (charge_guard (example_model 58 0.5 0) 40
      \<and> step_charge (example_model 58 0.5 0) 40 60 = Inr (example_model 58 0.5 0, 0, 40))
   \<and> (\<not> discharge_guard (example_model 58 0.5 0) 40
      \<and> time (fst (projr (step_discharge (example_model 58 0.5 0) 40 60))) = 60)
   \<and> (\<not> charge_guard (example_model 20 1 0) 80
      \<and> time (fst (projr (step_charge (example_model 20 1 0) 80 60))) = 60)"
proof -
  obtain d Qd Td where d: "step_discharge (example_model 58 0.5 0) 40 60 = Inr (d, Qd, Td)"
    using step_discharge_total [of "example_model 58 0.5 0" 40 60] valid_defaults by auto
  obtain c Qc Tc where c: "step_charge (example_model 20 1 0) 80 60 = Inr (c, Qc, Tc)"
    using step_charge_total [of "example_model 20 1 0" 80 60] valid_defaults by auto
  have g1: "discharge_guard (example_model 20 1 0) 40" by (simp add: discharge_guard_def)
  have g2: "charge_guard (example_model 58 0.5 0) 40" by (simp add: charge_guard_def)
  have g3: "\<not> discharge_guard (example_model 58 0.5 0) 40" by (simp add: discharge_guard_def)
  have g4: "\<not> charge_guard (example_model 20 1 0) 80" by (simp add: charge_guard_def)
  show ?thesis
    using guard_branches_preserve_state [of "example_model 20 1 0" 40 60]
      guard_branches_preserve_state [of "example_model 58 0.5 0" 40 60 d Qd Td]
      guard_branches_preserve_state [of "example_model 20 1 0" 80 60 _ _ _ c Qc Tc]
      g1 g2 g3 g4 d c
    by simp
qed

text \<open>
  C1, as the code has it. The step methods treat \<open>solid_fraction \<ge> 0.99\<close> as fully solid
  and \<open>solid_fraction \<le> 0.01\<close> as fully liquid. Strictly between the two thresholds the
  temperature equals the phase-change temperature: this holds in every reachable state,
  and every call of \<^verbatim>\<open>step_discharge\<close> and \<^verbatim>\<open>step_charge\<close> that returns, for any inlet
  temperature and any \<open>dt\<close>, preserves it.

  Over the whole interval \<open>0 < solid_fraction < 1\<close> the predicate is not preserved
  (the counterexample after the theorem): at solid fraction 0.995 a discharge step cools
  the medium below 58 degrees, and at 0.005 a charge step heats it above, the solid
  fraction staying where it was.
\<close>
theorem plateau_between_thresholds:
  "(reachable self \<longrightarrow> plateau self)
   \<and> (plateau self \<and> step_discharge self T_in dt = Inr (self', Q, T_out) \<longrightarrow> plateau self')
   \<and> (plateau self \<and> step_charge self T_in dt = Inr (self'', Q', T_out') \<longrightarrow> plateau self'')"
proof (intro conjI impI)
  assume "reachable self"
  then show "plateau self"
  proof (induction rule: reachable.induct)
    case (constructed sp self)
    then show ?case by (auto simp: ThermalBatteryModel_init_def reset_state_def plateau_def)
  next
    case (reset self)
    then show ?case by (simp add: reset_state_def plateau_def)
  next
    case (charged self)
    then show ?case by (simp add: charged_model_def plateau_def)
  next
    case (depleted self)
    then show ?case by (simp add: depleted_model_def plateau_def)
  next
    case (discharged_step self T_water_in dt self' Q T_out)
    then show ?case using step_discharge_plateau by blast
  next
    case (charged_step self T_water_in dt self' Q T_out)
    then show ?case using step_charge_plateau by blast
  qed
next
  assume "plateau self \<and> step_discharge self T_in dt = Inr (self', Q, T_out)"
  then show "plateau self'" using step_discharge_plateau by blast
next
  assume "plateau self \<and> step_charge self T_in dt = Inr (self'', Q', T_out')"
  then show "plateau self''" using step_charge_plateau by blast
qed

theorem plateau_between_thresholds_witness:
  "reachable (charged_model (example_model 20 1 0))
   \<and> solid_fraction (charged_model (example_model 20 1 0)) = 0.05
   \<and> plateau (charged_model (example_model 20 1 0))
   \<and> plateau (fst (projr (step_discharge (charged_model (example_model 20 1 0)) 40 60)))
   \<and> plateau (fst (projr (step_charge (charged_model (example_model 20 1 0)) 80 60)))"
proof -
  let ?m = "charged_model (example_model 20 1 0)"
  have "ThermalBatteryModel_init ITB100Specs_defaults = Inr (example_model 20 1 0)"
    by (simp add: ThermalBatteryModel_init_def reset_state_def example_model_def)
  then have r: "reachable ?m"
    using reachable.constructed reachable.charged by blast
  have v: "valid_specs (specs ?m)" using valid_defaults by (simp add: charged_model_def)
  obtain d Qd Td where d: "step_discharge ?m 40 60 = Inr (d, Qd, Td)"
    using step_discharge_total [OF v, of 40 60] by auto
  obtain c Qc Tc where c: "step_charge ?m 80 60 = Inr (c, Qc, Tc)"
    using step_charge_total [OF v, of 80 60] by auto
  have p: "plateau ?m" using plateau_between_thresholds [of ?m] r by blast
  have "plateau d" using plateau_between_thresholds [of ?m 40 60 d Qd Td] p d by blast
  moreover have "plateau c" using plateau_between_thresholds [of ?m 80 60 _ _ _ c Qc Tc] p c by blast
  ultimately show ?thesis using r p d c by (simp add: charged_model_def)
qed

theorem plateau_end_bands_counterexample:
  "spec_plateau (example_model 58 0.995 0)
   \<and> \<not> spec_plateau (fst (projr (step_discharge (example_model 58 0.995 0) 40 60)))
   \<and> spec_plateau (example_model 58 0.005 0)
   \<and> \<not> spec_plateau (fst (projr (step_charge (example_model 58 0.005 0) 80 60)))"
proof -
  let ?s = "example_model 58 0.995 0" and ?l = "example_model 58 0.005 0"
  have Ps: "0 < spec_transfer_power (specs ?s) (T_sat ?s - 40)"
    using transfer_power_pos [OF valid_defaults, of 18] by simp
  have Pl: "0 < spec_transfer_power (specs ?l) (80 - T_sat ?l)"
    using transfer_power_pos [OF valid_defaults, of 22] by simp
  have "\<not> discharge_guard ?s 40" by (simp add: discharge_guard_def)
  then have s: "step_discharge ?s 40 60 =
      Inr (?s\<lparr> T_sat := T_sat ?s - spec_transfer_power (specs ?s) (T_sat ?s - 40) * 60
                                    / (M_sat (specs ?s) * cp_sat_solid (specs ?s)),
                E_stored := E_stored ?s - spec_transfer_power (specs ?s) (T_sat ?s - 40) * 60,
                time := time ?s + 60 \<rparr>,
           0,
           40 + spec_transfer_power (specs ?s) (T_sat ?s - 40)
                  / (m_dot_design (specs ?s) * cp_water (specs ?s)))"
    using Ps by (intro step_discharge_solid_regime) simp_all
  have "\<not> charge_guard ?l 80" by (simp add: charge_guard_def)
  then have l: "step_charge ?l 80 60 =
      Inr (?l\<lparr> T_sat := T_sat ?l + spec_transfer_power (specs ?l) (80 - T_sat ?l) * 60
                                    / (M_sat (specs ?l) * cp_sat_liquid (specs ?l)),
                E_stored := E_stored ?l + spec_transfer_power (specs ?l) (80 - T_sat ?l) * 60,
                time := time ?l + 60 \<rparr>,
           spec_transfer_power (specs ?l) (80 - T_sat ?l),
           80 - spec_transfer_power (specs ?l) (80 - T_sat ?l)
                  / (m_dot_design (specs ?l) * cp_water (specs ?l)))"
    using Pl by (intro step_charge_liquid_regime) simp_all
  show ?thesis
    using Ps Pl s l by (simp add: spec_plateau_def)
qed

text \<open>
  C9, as the code has it. Neither constructor validates anything: constructing the
  parameters succeeds for every value of every field, and constructing the model succeeds
  for every parameter record and yields the reset state (20 degrees, fully solid, no
  stored energy, time 0).

  The claim as written fails: a negative mass, a zero UA and a zero mass flow are all
  accepted (the counterexample after the theorem).
\<close>
theorem construction_never_fails:
  "ITB100Specs_init given = Inr given
   \<and> ThermalBatteryModel_init sp
       = Inr \<lparr> specs = sp, T_sat = 20, solid_fraction = 1, E_stored = 0, time = 0 \<rparr>"
  by (simp add: ITB100Specs_init_def ThermalBatteryModel_init_def reset_state_def)

theorem invalid_configuration_counterexample:
  "ITB100Specs_init (ITB100Specs_defaults\<lparr> M_sat := - 1, m_dot_design := 0, UA_effective := 0 \<rparr>)
     = Inr (ITB100Specs_defaults\<lparr> M_sat := - 1, m_dot_design := 0, UA_effective := 0 \<rparr>)
   \<and> ThermalBatteryModel_init (ITB100Specs_defaults\<lparr> M_sat := - 1, m_dot_design := 0, UA_effective := 0 \<rparr>)
     = Inr \<lparr> specs = ITB100Specs_defaults\<lparr> M_sat := - 1, m_dot_design := 0, UA_effective := 0 \<rparr>,
             T_sat = 20, solid_fraction = 1, E_stored = 0, time = 0 \<rparr>"
  by (simp add: ITB100Specs_init_def ThermalBatteryModel_init_def reset_state_def)

lemma valid_example: "valid_specs (specs (example_model T f E))"
  using valid_defaults by simp

text \<open>
  C2. For valid parameters, a positive time step and a solid fraction in \<open>[0, 1]\<close>, a call
  of \<^verbatim>\<open>step_discharge\<close> and a call of \<^verbatim>\<open>step_charge\<close> (any inlet temperature) return,
  and the solid fraction of the resulting state is again in \<open>[0, 1]\<close>; the value of
  \<^verbatim>\<open>get_state_of_charge\<close> is in \<open>[0, 1]\<close> before and after the step.
\<close>
theorem state_bounds:
  assumes "valid_specs (specs self)" and "0 < dt"
    and "0 \<le> solid_fraction self" and "solid_fraction self \<le> 1"
  shows "(\<exists>self' Q T_out. step_discharge self T_in dt = Inr (self', Q, T_out)
            \<and> 0 \<le> solid_fraction self' \<and> solid_fraction self' \<le> 1
            \<and> 0 \<le> get_state_of_charge self' \<and> get_state_of_charge self' \<le> 1)
       \<and> (\<exists>self' Q T_out. step_charge self T_in' dt = Inr (self', Q, T_out)
            \<and> 0 \<le> solid_fraction self' \<and> solid_fraction self' \<le> 1
            \<and> 0 \<le> get_state_of_charge self' \<and> get_state_of_charge self' \<le> 1)
       \<and> 0 \<le> get_state_of_charge self \<and> get_state_of_charge self \<le> 1"
proof -
  have dt: "0 \<le> dt" using assms(2) by simp
  obtain d Qd Td where d: "step_discharge self T_in dt = Inr (d, Qd, Td)"
    using step_discharge_total [OF assms(1)] by blast
  obtain c Qc Tc where c: "step_charge self T_in' dt = Inr (c, Qc, Tc)"
    using step_charge_total [OF assms(1)] by blast
  show ?thesis
    using d c step_discharge_fraction [OF assms(1) dt assms(3,4) d]
      step_charge_fraction [OF assms(1) dt assms(3,4) c]
      soc_bounds [of d] soc_bounds [of c] soc_bounds [of self]
    by simp
qed

theorem state_bounds_witness:
  "valid_specs (specs (example_model 58 0.05 60156000)) \<and> (0::real) < 60
   \<and> 0 \<le> solid_fraction (example_model 58 0.05 60156000)
   \<and> solid_fraction (example_model 58 0.05 60156000) \<le> 1
   \<and> (\<exists>self' Q T_out. step_discharge (example_model 58 0.05 60156000) 40 60 = Inr (self', Q, T_out)
            \<and> 0 \<le> solid_fraction self' \<and> solid_fraction self' \<le> 1
            \<and> 0 \<le> get_state_of_charge self' \<and> get_state_of_charge self' \<le> 1)
   \<and> (\<exists>self' Q T_out. step_charge (example_model 58 0.05 60156000) 80 60 = Inr (self', Q, T_out)
            \<and> 0 \<le> solid_fraction self' \<and> solid_fraction self' \<le> 1
            \<and> 0 \<le> get_state_of_charge self' \<and> get_state_of_charge self' \<le> 1)"
proof -
  have v: "valid_specs (specs (example_model 58 0.05 60156000))" by (rule valid_example)
  have z: "(0::real) < 60" by simp
  have lo: "0 \<le> solid_fraction (example_model 58 0.05 60156000)" by simp
  have hi: "solid_fraction (example_model 58 0.05 60156000) \<le> 1" by simp
  from state_bounds [OF v z lo hi, of 40 80] v z lo hi show ?thesis by blast
qed

lemma discharge_run_soc:
  assumes "valid_specs (specs self)" and "\<forall>(T_in, dt) \<in> set steps. 0 < dt"
  shows "\<exists>self'. discharge_run self steps = Inr self' \<and> specs self' = specs self
            \<and> get_state_of_charge self' \<le> get_state_of_charge self"
  using assms
proof (induction steps arbitrary: self)
  case Nil
  then show ?case by simp
next
  case (Cons x steps)
  obtain T_in dt where x: "x = (T_in, dt)" by (cases x)
  have dt: "0 \<le> dt" using Cons.prems(2) x by simp
  obtain d Q T_out where d: "step_discharge self T_in dt = Inr (d, Q, T_out)"
    using step_discharge_total [OF Cons.prems(1)] by blast
  have sp: "specs d = specs self" by (rule step_discharge_specs [OF d])
  have le: "get_state_of_charge d \<le> get_state_of_charge self"
  proof (rule soc_mono)
    show "0 < E_storage (specs d)" using Cons.prems(1) by (simp only: sp valid_specs_def)
    show "specs self = specs d" by (rule sp [symmetric])
    show "E_stored d \<le> E_stored self" by (rule step_discharge_energy [OF d dt])
  qed
  have "valid_specs (specs d)" using Cons.prems(1) by (simp only: sp)
  moreover have "\<forall>(T_in, dt) \<in> set steps. 0 < dt" using Cons.prems(2) by simp
  ultimately obtain e where "discharge_run d steps = Inr e" "specs e = specs d"
      "get_state_of_charge e \<le> get_state_of_charge d"
    using Cons.IH by blast
  then show ?case using x d le by (simp add: sp)
qed

lemma charge_run_soc:
  assumes "valid_specs (specs self)" and "\<forall>(T_in, dt) \<in> set steps. 0 < dt"
  shows "\<exists>self'. charge_run self steps = Inr self' \<and> specs self' = specs self
            \<and> get_state_of_charge self \<le> get_state_of_charge self'"
  using assms
proof (induction steps arbitrary: self)
  case Nil
  then show ?case by simp
next
  case (Cons x steps)
  obtain T_in dt where x: "x = (T_in, dt)" by (cases x)
  have dt: "0 \<le> dt" using Cons.prems(2) x by simp
  obtain c Q T_out where c: "step_charge self T_in dt = Inr (c, Q, T_out)"
    using step_charge_total [OF Cons.prems(1)] by blast
  have sp: "specs c = specs self" by (rule step_charge_specs [OF c])
  have le: "get_state_of_charge self \<le> get_state_of_charge c"
  proof (rule soc_mono)
    show "0 < E_storage (specs self)" using Cons.prems(1) by (simp only: valid_specs_def)
    show "specs c = specs self" by (rule sp)
    show "E_stored self \<le> E_stored c" by (rule step_charge_energy [OF c dt])
  qed
  have "valid_specs (specs c)" using Cons.prems(1) by (simp only: sp)
  moreover have "\<forall>(T_in, dt) \<in> set steps. 0 < dt" using Cons.prems(2) by simp
  ultimately obtain e where "charge_run c steps = Inr e" "specs e = specs c"
      "get_state_of_charge c \<le> get_state_of_charge e"
    using Cons.IH by blast
  then show ?case using x c le by (simp add: sp)
qed

lemma step_discharge_soc:
  assumes "valid_specs (specs self)" and "0 \<le> dt"
  shows "\<exists>self' Q T_out. step_discharge self T_in dt = Inr (self', Q, T_out)
           \<and> get_state_of_charge self' \<le> get_state_of_charge self"
proof -
  obtain d Q T_out where d: "step_discharge self T_in dt = Inr (d, Q, T_out)"
    using step_discharge_total [OF assms(1)] by blast
  have sp: "specs d = specs self" by (rule step_discharge_specs [OF d])
  have "get_state_of_charge d \<le> get_state_of_charge self"
  proof (rule soc_mono)
    show "0 < E_storage (specs d)" using assms(1) by (simp only: sp valid_specs_def)
    show "specs self = specs d" by (rule sp [symmetric])
    show "E_stored d \<le> E_stored self" by (rule step_discharge_energy [OF d assms(2)])
  qed
  with d show ?thesis by blast
qed

lemma step_charge_soc:
  assumes "valid_specs (specs self)" and "0 \<le> dt"
  shows "\<exists>self' Q T_out. step_charge self T_in dt = Inr (self', Q, T_out)
           \<and> get_state_of_charge self \<le> get_state_of_charge self'"
proof -
  obtain c Q T_out where c: "step_charge self T_in dt = Inr (c, Q, T_out)"
    using step_charge_total [OF assms(1)] by blast
  have sp: "specs c = specs self" by (rule step_charge_specs [OF c])
  have "get_state_of_charge self \<le> get_state_of_charge c"
  proof (rule soc_mono)
    show "0 < E_storage (specs self)" using assms(1) by (simp only: valid_specs_def)
    show "specs c = specs self" by (rule sp)
    show "E_stored self \<le> E_stored c" by (rule step_charge_energy [OF c assms(2)])
  qed
  with c show ?thesis by blast
qed

text \<open>
  C7. For valid parameters and positive time steps, a call of \<^verbatim>\<open>step_discharge\<close>
  returns and does not increase the state of charge, and a call of \<^verbatim>\<open>step_charge\<close>
  returns and does not decrease it; so over an uninterrupted sequence of discharge steps
  the state of charge at the end is at most the one at the start, and over an
  uninterrupted sequence of charge steps at least the one at the start.
\<close>
theorem soc_monotone:
  assumes "valid_specs (specs self)"
  shows "(0 < dt \<longrightarrow>
           (\<exists>self' Q T_out. step_discharge self T_in dt = Inr (self', Q, T_out)
              \<and> get_state_of_charge self' \<le> get_state_of_charge self))
       \<and> (0 < dt \<longrightarrow>
           (\<exists>self' Q T_out. step_charge self T_in' dt = Inr (self', Q, T_out)
              \<and> get_state_of_charge self \<le> get_state_of_charge self'))
       \<and> ((\<forall>(T, dt) \<in> set dsteps. 0 < dt) \<longrightarrow>
           (\<exists>self'. discharge_run self dsteps = Inr self'
              \<and> get_state_of_charge self' \<le> get_state_of_charge self))
       \<and> ((\<forall>(T, dt) \<in> set csteps. 0 < dt) \<longrightarrow>
           (\<exists>self'. charge_run self csteps = Inr self'
              \<and> get_state_of_charge self \<le> get_state_of_charge self'))"
proof (intro conjI impI)
  assume "0 < dt"
  then have "0 \<le> dt" by simp
  then show "\<exists>self' Q T_out. step_discharge self T_in dt = Inr (self', Q, T_out)
          \<and> get_state_of_charge self' \<le> get_state_of_charge self"
    by (rule step_discharge_soc [OF assms])
next
  assume "0 < dt"
  then have "0 \<le> dt" by simp
  then show "\<exists>self' Q T_out. step_charge self T_in' dt = Inr (self', Q, T_out)
          \<and> get_state_of_charge self \<le> get_state_of_charge self'"
    by (rule step_charge_soc [OF assms])
next
  assume "\<forall>(T, dt) \<in> set dsteps. 0 < dt"
  from discharge_run_soc [OF assms this]
  show "\<exists>self'. discharge_run self dsteps = Inr self'
          \<and> get_state_of_charge self' \<le> get_state_of_charge self" by blast
next
  assume "\<forall>(T, dt) \<in> set csteps. 0 < dt"
  from charge_run_soc [OF assms this]
  show "\<exists>self'. charge_run self csteps = Inr self'
          \<and> get_state_of_charge self \<le> get_state_of_charge self'" by blast
qed

theorem soc_monotone_witness:
  "valid_specs (specs (example_model 58 0.5 30000000)) \<and> (0::real) < 60
   \<and> (\<exists>self' Q T_out. step_discharge (example_model 58 0.5 30000000) 40 60 = Inr (self', Q, T_out)
        \<and> get_state_of_charge self' \<le> get_state_of_charge (example_model 58 0.5 30000000))
   \<and> (\<exists>self' Q T_out. step_charge (example_model 58 0.5 30000000) 80 60 = Inr (self', Q, T_out)
        \<and> get_state_of_charge (example_model 58 0.5 30000000) \<le> get_state_of_charge self')
   \<and> (\<exists>self'. discharge_run (example_model 58 0.5 30000000) [(40, 60), (42, 30)] = Inr self'
        \<and> get_state_of_charge self' \<le> get_state_of_charge (example_model 58 0.5 30000000))
   \<and> (\<exists>self'. charge_run (example_model 58 0.5 30000000) [(80, 60), (75, 30)] = Inr self'
        \<and> get_state_of_charge (example_model 58 0.5 30000000) \<le> get_state_of_charge self')"
proof -
  have d: "\<forall>(T, dt) \<in> set [(40::real, 60::real), (42, 30)]. 0 < dt" by simp
  have c: "\<forall>(T, dt) \<in> set [(80::real, 60::real), (75, 30)]. 0 < dt" by simp
  have v: "valid_specs (specs (example_model 58 0.5 30000000))" by (rule valid_example)
  have z: "(0::real) < 60" by simp
  note w = soc_monotone [OF v, of 60 40 80 "[(40, 60), (42, 30)]" "[(80, 60), (75, 30)]"]
  note A = w [THEN conjunct1, THEN mp, OF z]
  note B = w [THEN conjunct2, THEN conjunct1, THEN mp, OF z]
  note C = w [THEN conjunct2, THEN conjunct2, THEN conjunct1, THEN mp, OF d]
  note D = w [THEN conjunct2, THEN conjunct2, THEN conjunct2, THEN mp, OF c]
  show ?thesis by (intro conjI) (rule v z A B C D)+
qed

text \<open>
  C4. Write \<open>P\<close> for \<^verbatim>\<open>max(0, (1 - exp(-UA/(m_dot * cp_water))) * m_dot * cp_water * dT)\<close>
  (\<open>spec_transfer_power\<close>), with \<open>dT = T_sat - T_in\<close> for discharge and
  \<open>dT = T_in - T_sat\<close> for charge. For every state and inlet temperature that passes the
  guards (and a non-zero \<^verbatim>\<open>m_dot * cp_water\<close>, without which the method raises),
  \<^verbatim>\<open>step_discharge\<close> computes the transfer power \<open>P\<close>: it returns the outlet temperature
  \<open>T_in + P / (m_dot * cp_water)\<close>, takes \<open>P * dt\<close> out of the stored energy, and reports
  \<open>P\<close> as delivered power (zero in the fully solid cooling branch). \<^verbatim>\<open>step_charge\<close> is the
  mirror: it returns the power \<open>P\<close> and the outlet temperature \<open>T_in - P / (m_dot * cp_water)\<close>,
  and adds \<open>P * dt\<close> to the stored energy.
\<close>
theorem effectiveness_ntu_power:
  "(\<not> discharge_guard self T_in \<and> m_dot_design (specs self) * cp_water (specs self) \<noteq> 0 \<longrightarrow>
      (\<exists>self' Q. step_discharge self T_in dt
           = Inr (self', Q,
                  T_in + spec_transfer_power (specs self) (T_sat self - T_in)
                           / (m_dot_design (specs self) * cp_water (specs self)))
         \<and> E_stored self' = E_stored self - spec_transfer_power (specs self) (T_sat self - T_in) * dt
         \<and> (Q = spec_transfer_power (specs self) (T_sat self - T_in)
              \<or> (Q = 0 \<and> solid_fraction self \<ge> 0.99 \<and> T_sat self \<le> T_phase (specs self) + 0.1))))
   \<and> (\<not> charge_guard self T_in' \<and> m_dot_design (specs self) * cp_water (specs self) \<noteq> 0 \<longrightarrow>
      (\<exists>self'. step_charge self T_in' dt
           = Inr (self', spec_transfer_power (specs self) (T_in' - T_sat self),
                  T_in' - spec_transfer_power (specs self) (T_in' - T_sat self)
                            / (m_dot_design (specs self) * cp_water (specs self)))
         \<and> E_stored self' = E_stored self + spec_transfer_power (specs self) (T_in' - T_sat self) * dt))"
proof (intro conjI impI)
  assume a: "\<not> discharge_guard self T_in \<and> m_dot_design (specs self) * cp_water (specs self) \<noteq> 0"
  from step_discharge_unguarded [OF conjunct1 [OF a] conjunct2 [OF a], of dt]
  obtain self' Q where r: "step_discharge self T_in dt
           = Inr (self', Q,
                  T_in + spec_transfer_power (specs self) (T_sat self - T_in)
                           / (m_dot_design (specs self) * cp_water (specs self)))"
     and e: "E_stored self' = E_stored self - spec_transfer_power (specs self) (T_sat self - T_in) * dt"
     and q: "Q = (if 0 < spec_transfer_power (specs self) (T_sat self - T_in)
                      \<and> \<not> T_sat self > T_phase (specs self) + 0.1 \<and> \<not> solid_fraction self < 0.99
                  then 0 else spec_transfer_power (specs self) (T_sat self - T_in))"
    by blast
  have "Q = spec_transfer_power (specs self) (T_sat self - T_in)
          \<or> (Q = 0 \<and> solid_fraction self \<ge> 0.99 \<and> T_sat self \<le> T_phase (specs self) + 0.1)"
    using q by (simp split: if_splits)
  with r e show "\<exists>self' Q. step_discharge self T_in dt
           = Inr (self', Q,
                  T_in + spec_transfer_power (specs self) (T_sat self - T_in)
                           / (m_dot_design (specs self) * cp_water (specs self)))
         \<and> E_stored self' = E_stored self - spec_transfer_power (specs self) (T_sat self - T_in) * dt
         \<and> (Q = spec_transfer_power (specs self) (T_sat self - T_in)
              \<or> (Q = 0 \<and> solid_fraction self \<ge> 0.99 \<and> T_sat self \<le> T_phase (specs self) + 0.1))"
    by blast
next
  assume a: "\<not> charge_guard self T_in' \<and> m_dot_design (specs self) * cp_water (specs self) \<noteq> 0"
  from step_charge_unguarded [OF conjunct1 [OF a] conjunct2 [OF a], of dt]
  show "\<exists>self'. step_charge self T_in' dt
           = Inr (self', spec_transfer_power (specs self) (T_in' - T_sat self),
                  T_in' - spec_transfer_power (specs self) (T_in' - T_sat self)
                            / (m_dot_design (specs self) * cp_water (specs self)))
         \<and> E_stored self' = E_stored self + spec_transfer_power (specs self) (T_in' - T_sat self) * dt"
    by blast
qed

theorem effectiveness_ntu_power_witness:
  "\<not> discharge_guard (example_model 58 0.5 0) 40
   \<and> \<not> charge_guard (example_model 58 0.5 0) 80
   \<and> m_dot_design (specs (example_model 58 0.5 0)) * cp_water (specs (example_model 58 0.5 0)) \<noteq> 0
   \<and> snd (snd (projr (step_discharge (example_model 58 0.5 0) 40 60)))
        = 40 + spec_transfer_power ITB100Specs_defaults 18 / (0.074 * 4186)
   \<and> E_stored (fst (projr (step_discharge (example_model 58 0.5 0) 40 60)))
        = 0 - spec_transfer_power ITB100Specs_defaults 18 * 60
   \<and> fst (snd (projr (step_charge (example_model 58 0.5 0) 80 60)))
        = spec_transfer_power ITB100Specs_defaults 22
   \<and> snd (snd (projr (step_charge (example_model 58 0.5 0) 80 60)))
        = 80 - spec_transfer_power ITB100Specs_defaults 22 / (0.074 * 4186)"
proof -
  let ?m = "example_model 58 0.5 0"
  have gd: "\<not> discharge_guard ?m 40" by (simp add: discharge_guard_def)
  have gc: "\<not> charge_guard ?m 80" by (simp add: charge_guard_def)
  have nz: "m_dot_design (specs ?m) * cp_water (specs ?m) \<noteq> 0" by simp
  note w = effectiveness_ntu_power [of ?m 40 60 80]
  from w [THEN conjunct1, THEN mp, OF conjI [OF gd nz]]
  obtain d Q where d: "step_discharge ?m 40 60
           = Inr (d, Q, 40 + spec_transfer_power (specs ?m) (T_sat ?m - 40)
                           / (m_dot_design (specs ?m) * cp_water (specs ?m)))"
    and de: "E_stored d = E_stored ?m - spec_transfer_power (specs ?m) (T_sat ?m - 40) * 60"
    by blast
  from w [THEN conjunct2, THEN mp, OF conjI [OF gc nz]]
  obtain c where c: "step_charge ?m 80 60
           = Inr (c, spec_transfer_power (specs ?m) (80 - T_sat ?m),
                  80 - spec_transfer_power (specs ?m) (80 - T_sat ?m)
                            / (m_dot_design (specs ?m) * cp_water (specs ?m)))"
    by blast
  show ?thesis using gd gc d de c by simp
qed

text \<open>
  C6. For valid parameters, a positive time step and a state that passes the guards of
  \<^verbatim>\<open>step_discharge\<close>, the call returns and the stored energy has decreased by the energy
  removed, \<open>P * dt > 0\<close>, whichever of the three branches ran. In the fully solid cooling
  branch (\<open>solid_fraction \<ge> 0.99\<close>, temperature not above the phase-change temperature
  plus 0.1) the returned power is zero, although the medium has cooled by
  \<open>P * dt / (M_sat * cp_sat_solid)\<close>.
\<close>
theorem solid_cooling_no_credit:
  assumes "valid_specs (specs self)" and "0 < dt" and "\<not> discharge_guard self T_in"
  shows "\<exists>self' Q T_out. step_discharge self T_in dt = Inr (self', Q, T_out)
           \<and> E_stored self' = E_stored self - spec_transfer_power (specs self) (T_sat self - T_in) * dt
           \<and> E_stored self' < E_stored self
           \<and> (solid_fraction self \<ge> 0.99 \<and> T_sat self \<le> T_phase (specs self) + 0.1 \<longrightarrow>
                Q = 0
                \<and> T_sat self' = T_sat self - spec_transfer_power (specs self) (T_sat self - T_in) * dt
                                              / (M_sat (specs self) * cp_sat_solid (specs self))
                \<and> solid_fraction self' = solid_fraction self)"
proof -
  let ?P = "spec_transfer_power (specs self) (T_sat self - T_in)"
  have nz: "m_dot_design (specs self) * cp_water (specs self) \<noteq> 0"
    using valid_flow_pos [OF assms(1)] by (rule less_imp_neq [THEN not_sym])
  have "0 < T_sat self - T_in" using assms(3) by (simp add: discharge_guard_def)
  then have P: "0 < ?P" by (rule transfer_power_pos [OF assms(1)])
  then have Pdt: "0 < ?P * dt" using assms(2) by simp
  show ?thesis
  proof (cases "solid_fraction self \<ge> 0.99 \<and> T_sat self \<le> T_phase (specs self) + 0.1")
    case True
    from step_discharge_solid_regime [OF assms(3) nz conjunct1 [OF True] conjunct2 [OF True] P, of dt]
    show ?thesis using Pdt by simp
  next
    case False
    from step_discharge_unguarded [OF assms(3) nz, of dt]
    obtain self' Q where "step_discharge self T_in dt
        = Inr (self', Q, T_in + ?P / (m_dot_design (specs self) * cp_water (specs self)))"
      and "E_stored self' = E_stored self - ?P * dt"
      by blast
    then show ?thesis using Pdt False by auto
  qed
qed

theorem solid_cooling_no_credit_witness:
  "valid_specs (specs (example_model 58 1 0)) \<and> (0::real) < 60
   \<and> \<not> discharge_guard (example_model 58 1 0) 40
   \<and> solid_fraction (example_model 58 1 0) \<ge> 0.99
   \<and> T_sat (example_model 58 1 0) \<le> T_phase (specs (example_model 58 1 0)) + 0.1
   \<and> fst (snd (projr (step_discharge (example_model 58 1 0) 40 60))) = 0
   \<and> E_stored (fst (projr (step_discharge (example_model 58 1 0) 40 60)))
        = 0 - spec_transfer_power ITB100Specs_defaults 18 * 60
   \<and> E_stored (fst (projr (step_discharge (example_model 58 1 0) 40 60))) < 0"
proof -
  let ?m = "example_model 58 1 0"
  have v: "valid_specs (specs ?m)" by (rule valid_example)
  have z: "(0::real) < 60" by simp
  have g: "\<not> discharge_guard ?m 40" by (simp add: discharge_guard_def)
  have r: "solid_fraction ?m \<ge> 0.99 \<and> T_sat ?m \<le> T_phase (specs ?m) + 0.1" by simp
  from solid_cooling_no_credit [OF v z g]
  obtain d Q T_out where "step_discharge ?m 40 60 = Inr (d, Q, T_out)"
    and "E_stored d = E_stored ?m - spec_transfer_power (specs ?m) (T_sat ?m - 40) * 60"
    and "E_stored d < E_stored ?m"
    and "solid_fraction ?m \<ge> 0.99 \<and> T_sat ?m \<le> T_phase (specs ?m) + 0.1 \<longrightarrow> Q = 0"
    by blast
  then show ?thesis using v z g r by simp
qed

lemma simulate_discharge_start:
  "simulate_discharge sp T_supply T_return_target dt =
     (case discharge_loop
             \<lparr> specs = sp, T_sat = T_phase sp, solid_fraction = 0.05,
               E_stored = E_storage sp * 3600000, time = 0 \<rparr> T_supply dt 0 [] of
        None \<Rightarrow> None
      | Some (Inl e) \<Rightarrow> Some (Inl e)
      | Some (Inr hist) \<Rightarrow> Some (Inr (summary time_h Q_h hist)))"
  by (simp add: simulate_discharge_def ThermalBatteryModel_init_def reset_state_def
      charged_model_def)

lemma discharge_loop_exit:
  "\<not> tm < 12 * 3600 \<Longrightarrow> discharge_loop model T_supply dt tm hist = Some (Inr hist)"
  by (subst discharge_loop.simps) simp

lemma discharge_loop_raise:
  "tm < 12 * 3600 \<Longrightarrow> step_discharge model T_supply dt = Inl e
     \<Longrightarrow> discharge_loop model T_supply dt tm hist = Some (Inl e)"
  by (subst discharge_loop.simps) simp

lemma discharge_loop_break:
  assumes "tm < 12 * 3600" and "step_discharge model T_supply dt = Inr (model', Q, T_out)"
    and "get_state_of_charge model' < 0.01 \<or> (Q < 100 \<and> float_add tm dt > 3600)"
  shows "discharge_loop model T_supply dt tm hist =
           Some (Inr (hist @ [\<lparr> time_h = tm / 3600, T_sat_h = T_sat model', T_out_h = T_out,
                                  Q_h = Q / 1000, SOC_h = get_state_of_charge model',
                                  solid_fraction_h = solid_fraction model' \<rparr>]))"
  using assms by (subst discharge_loop.simps) (auto simp: Let_def)

lemma discharge_loop_continue:
  assumes "tm < 12 * 3600" and "step_discharge model T_supply dt = Inr (model', Q, T_out)"
    and "\<not> (get_state_of_charge model' < 0.01 \<or> (Q < 100 \<and> float_add tm dt > 3600))"
  shows "discharge_loop model T_supply dt tm hist =
           discharge_loop model' T_supply dt (float_add tm dt)
             (hist @ [\<lparr> time_h = tm / 3600, T_sat_h = T_sat model', T_out_h = T_out,
                          Q_h = Q / 1000, SOC_h = get_state_of_charge model',
                          solid_fraction_h = solid_fraction model' \<rparr>])"
  using assms by (subst discharge_loop.simps) (auto simp: Let_def)

lemma clock_budget:
  assumes "0 \<le> tm" and "tm < 43200" and "1 / 2 ^ 37 \<le> dt"
    and "12 * 3600 - tm \<le> real (Suc n) * (dt / 4)"
  shows "0 \<le> float_add tm dt" and "12 * 3600 - float_add tm dt \<le> real n * (dt / 4)"
proof -
  have adv: "tm + dt / 4 \<le> float_add tm dt" by (rule clock_advances [OF assms(1,2,3)])
  have "0 < dt" using assms(3) by (smt (verit) divide_pos_pos zero_less_power)
  then show "0 \<le> float_add tm dt" using adv assms(1) by linarith
  have "real (Suc n) * (dt / 4) = real n * (dt / 4) + dt / 4" by (simp add: algebra_simps)
  then show "12 * 3600 - float_add tm dt \<le> real n * (dt / 4)" using adv assms(4) by linarith
qed

lemma discharge_loop_returns:
  assumes "1 / 2 ^ 37 \<le> dt" and "0 \<le> tm" and "12 * 3600 - tm \<le> real n * (dt / 4)"
  shows "\<exists>r. discharge_loop model T_supply dt tm hist = Some r"
  using assms(2,3)
proof (induction n arbitrary: model tm hist)
  case 0
  then have "\<not> tm < 12 * 3600" by simp
  then show ?case using discharge_loop_exit by blast
next
  case (Suc n)
  show ?case
  proof (cases "tm < 12 * 3600")
    case False
    then show ?thesis using discharge_loop_exit by blast
  next
    case True
    then have lt: "tm < 43200" by simp
    show ?thesis
    proof (cases "step_discharge model T_supply dt")
      case (Inl e)
      then show ?thesis using discharge_loop_raise [OF True] by blast
    next
      case (Inr r)
      obtain model' Q T_out where r: "r = (model', Q, T_out)" by (cases r)
      have s: "step_discharge model T_supply dt = Inr (model', Q, T_out)" using Inr r by simp
      show ?thesis
      proof (cases "get_state_of_charge model' < 0.01 \<or> (Q < 100 \<and> float_add tm dt > 3600)")
        case True
        with discharge_loop_break [OF \<open>tm < 12 * 3600\<close> s] show ?thesis by blast
      next
        case False
        from Suc.IH [OF clock_budget [OF Suc.prems(1) lt assms(1) Suc.prems(2)]]
          discharge_loop_continue [OF True s False]
        show ?thesis by simp
      qed
    qed
  qed
qed

lemma discharge_loop_run:
  assumes "1 / 2 ^ 37 \<le> dt" and "0 \<le> tm" and "12 * 3600 - tm \<le> real n * (dt / 4)"
    and "tm < 12 * 3600" and "valid_specs (specs model)"
  shows "\<exists>h. discharge_loop model T_supply dt tm hist = Some (Inr (hist @ h)) \<and> h \<noteq> []
           \<and> (\<forall>i<length h.
                 \<exists>m m' Q T_out.
                   discharge_run model (replicate i (T_supply, dt)) = Inr m
                   \<and> step_discharge m T_supply dt = Inr (m', Q, T_out)
                   \<and> h ! i = \<lparr> time_h = clock_after tm dt i / 3600, T_sat_h = T_sat m',
                                T_out_h = T_out, Q_h = Q / 1000,
                                SOC_h = get_state_of_charge m',
                                solid_fraction_h = solid_fraction m' \<rparr>
                   \<and> clock_after tm dt i < 12 * 3600
                   \<and> ((get_state_of_charge m' < 0.01
                          \<or> (Q < 100 \<and> clock_after tm dt (Suc i) > 3600)
                          \<or> \<not> clock_after tm dt (Suc i) < 12 * 3600)
                        \<longleftrightarrow> Suc i = length h))"
  using assms(2,3,4,5)
proof (induction n arbitrary: model tm hist)
  case 0
  then show ?case by simp
next
  case (Suc n)
  define ok where "ok = (\<lambda>M c (h :: sample list) i.
                 \<exists>m m' Q T_out.
                   discharge_run M (replicate i (T_supply, dt)) = Inr m
                   \<and> step_discharge m T_supply dt = Inr (m', Q, T_out)
                   \<and> h ! i = \<lparr> time_h = clock_after c dt i / 3600, T_sat_h = T_sat m',
                                T_out_h = T_out, Q_h = Q / 1000,
                                SOC_h = get_state_of_charge m',
                                solid_fraction_h = solid_fraction m' \<rparr>
                   \<and> clock_after c dt i < 12 * 3600
                   \<and> ((get_state_of_charge m' < 0.01
                          \<or> (Q < 100 \<and> clock_after c dt (Suc i) > 3600)
                          \<or> \<not> clock_after c dt (Suc i) < 12 * 3600)
                        \<longleftrightarrow> Suc i = length h))"
  note lt = \<open>tm < 12 * 3600\<close>
  then have lt': "tm < 43200" by simp
  obtain model' Q T_out where s: "step_discharge model T_supply dt = Inr (model', Q, T_out)"
    using step_discharge_total [OF Suc.prems(4)] by blast
  have v': "valid_specs (specs model')"
    using Suc.prems(4) by (simp only: step_discharge_specs [OF s])
  define x where "x = \<lparr> time_h = tm / 3600, T_sat_h = T_sat model', T_out_h = T_out,
                          Q_h = Q / 1000, SOC_h = get_state_of_charge model',
                          solid_fraction_h = solid_fraction model' \<rparr>"
  have single: "ok model tm [x] 0"
    if "get_state_of_charge model' < 0.01
          \<or> (Q < 100 \<and> float_add tm dt > 3600) \<or> \<not> float_add tm dt < 12 * 3600"
    unfolding ok_def using that s lt by (simp add: x_def)
  have goal: "\<exists>h. discharge_loop model T_supply dt tm hist = Some (Inr (hist @ h)) \<and> h \<noteq> []
                 \<and> (\<forall>i<length h. ok model tm h i)"
  proof (cases "get_state_of_charge model' < 0.01 \<or> (Q < 100 \<and> float_add tm dt > 3600)")
    case True
    have "discharge_loop model T_supply dt tm hist = Some (Inr (hist @ [x]))"
      unfolding x_def by (rule discharge_loop_break [OF lt s True])
    moreover have "\<forall>i<length [x]. ok model tm [x] i" using single True by auto
    ultimately show ?thesis by blast
  next
    case False
    have cont: "discharge_loop model T_supply dt tm hist
                  = discharge_loop model' T_supply dt (float_add tm dt) (hist @ [x])"
      unfolding x_def by (rule discharge_loop_continue [OF lt s False])
    show ?thesis
    proof (cases "float_add tm dt < 12 * 3600")
      case False
      then have "discharge_loop model T_supply dt tm hist = Some (Inr (hist @ [x]))"
        using cont discharge_loop_exit by simp
      moreover have "\<forall>i<length [x]. ok model tm [x] i" using single False by auto
      ultimately show ?thesis by blast
    next
      case True
      note b = clock_budget [OF Suc.prems(1) lt' assms(1) Suc.prems(2)]
      from Suc.IH [OF b True v', of "hist @ [x]"]
      obtain h where h: "discharge_loop model' T_supply dt (float_add tm dt) (hist @ [x])
                           = Some (Inr ((hist @ [x]) @ h))"
        and ne: "h \<noteq> []"
        and all: "\<forall>i<length h. ok model' (float_add tm dt) h i"
        unfolding ok_def by blast
      have "discharge_loop model T_supply dt tm hist = Some (Inr (hist @ (x # h)))"
        using cont h by simp
      moreover have "\<forall>i<length (x # h). ok model tm (x # h) i"
      proof (intro allI impI)
        fix i assume i: "i < length (x # h)"
        show "ok model tm (x # h) i"
        proof (cases i)
          case 0
          show ?thesis
            unfolding ok_def 0 using s lt False True ne by (simp add: x_def)
        next
          case (Suc j)
          then have "j < length h" using i by simp
          with all have "ok model' (float_add tm dt) h j" by blast
          then show ?thesis unfolding ok_def Suc using s by simp
        qed
      qed
      ultimately show ?thesis by blast
    qed
  qed
  then show ?case unfolding ok_def .
qed

lemma enough_steps:
  assumes "1 / 2 ^ 37 \<le> dt"
  shows "12 * 3600 - 0 \<le> real (nat \<lceil>43200 / (dt / 4)\<rceil>) * (dt / 4)"
proof -
  have "0 < dt" using assms by (smt (verit) divide_pos_pos zero_less_power)
  then have q: "0 < dt / 4" by simp
  have "43200 / (dt / 4) \<le> real (nat \<lceil>43200 / (dt / 4)\<rceil>)" by (rule real_nat_ceiling_ge)
  then have "43200 \<le> real (nat \<lceil>43200 / (dt / 4)\<rceil>) * (dt / 4)"
    by (rule iffD1 [OF pos_divide_le_eq [OF q]])
  then show ?thesis by simp
qed

lemma stalled_loop:
  assumes "discharge_loop model T_supply dt tm hist = Some r"
  shows "\<not> (discharge_guard model T_supply \<and> 1 \<le> get_state_of_charge model
             \<and> 0 < dt \<and> dt \<le> 1 / 2 ^ 44 \<and> 0 \<le> tm \<and> tm \<le> 512)"
proof (rule discharge_loop.raw_induct
    [where P = "\<lambda>model T_supply dt tm hist r.
                  \<not> (discharge_guard model T_supply \<and> 1 \<le> get_state_of_charge model
                       \<and> 0 < dt \<and> dt \<le> 1 / 2 ^ 44 \<and> 0 \<le> tm \<and> tm \<le> 512)", OF _ assms])
  fix loop :: "ThermalBatteryModel \<Rightarrow> real \<Rightarrow> real \<Rightarrow> real \<Rightarrow> sample list
                 \<Rightarrow> (error + sample list) option"
  fix model T_supply dt tm hist r
  assume IH: "\<And>model T_supply dt tm hist r. loop model T_supply dt tm hist = Some r \<Longrightarrow>
                \<not> (discharge_guard model T_supply \<and> 1 \<le> get_state_of_charge model
                     \<and> 0 < dt \<and> dt \<le> 1 / 2 ^ 44 \<and> 0 \<le> tm \<and> tm \<le> 512)"
  assume body: "(if tm < 12 * 3600 then
        (case step_discharge model T_supply dt of
           Inl e \<Rightarrow> Some (Inl e)
         | Inr (model', Q_actual, T_out) \<Rightarrow>
             let hist' = hist @ [\<lparr> time_h = tm / 3600, T_sat_h = T_sat model', T_out_h = T_out,
                                   Q_h = Q_actual / 1000, SOC_h = get_state_of_charge model',
                                   solid_fraction_h = solid_fraction model' \<rparr>];
                 tm' = float_add tm dt
             in if get_state_of_charge model' < 0.01 \<or> (Q_actual < 100 \<and> tm' > 3600)
                then Some (Inr hist')
                else loop model' T_supply dt tm' hist')
      else Some (Inr hist)) = Some r"
  show "\<not> (discharge_guard model T_supply \<and> 1 \<le> get_state_of_charge model
             \<and> 0 < dt \<and> dt \<le> 1 / 2 ^ 44 \<and> 0 \<le> tm \<and> tm \<le> 512)"
  proof
    assume inv: "discharge_guard model T_supply \<and> 1 \<le> get_state_of_charge model
             \<and> 0 < dt \<and> dt \<le> 1 / 2 ^ 44 \<and> 0 \<le> tm \<and> tm \<le> 512"
    then have g: "discharge_guard model T_supply" and soc: "1 \<le> get_state_of_charge model"
      and dt: "0 < dt" "dt \<le> 1 / 2 ^ 44" and tm: "0 \<le> tm" "tm \<le> 512"
      by simp_all
    have s: "step_discharge model T_supply dt = Inr (model, 0, T_supply)"
      by (rule step_discharge_guarded [OF g])
    note c = clock_stalls [OF tm dt]
    have lt: "tm < 12 * 3600" using tm(2) by simp
    have nobreak: "\<not> (get_state_of_charge model < 0.01 \<or> ((0::real) < 100 \<and> float_add tm dt > 3600))"
      using soc c by simp
    have "loop model T_supply dt (float_add tm dt)
            (hist @ [\<lparr> time_h = tm / 3600, T_sat_h = T_sat model, T_out_h = T_supply,
                         Q_h = 0 / 1000, SOC_h = get_state_of_charge model,
                         solid_fraction_h = solid_fraction model \<rparr>]) = Some r"
      using body lt s nobreak by (simp add: Let_def)
    from IH [OF this] show False using g soc dt c by simp
  qed
qed

lemma transfer_power_le:
  assumes "valid_specs sp" and "0 \<le> dT"
  shows "spec_transfer_power sp dT \<le> m_dot_design sp * cp_water sp * dT"
proof -
  let ?eff = "1 - exp (- (UA_effective sp / (m_dot_design sp * cp_water sp)))"
  have "0 \<le> m_dot_design sp * cp_water sp * dT"
    using valid_flow_pos [OF assms(1)] assms(2) by simp
  moreover have "?eff \<le> 1" by simp
  ultimately have "?eff * (m_dot_design sp * cp_water sp * dT) \<le> 1 * (m_dot_design sp * cp_water sp * dT)"
    by (intro mult_right_mono)
  then have "?eff * (m_dot_design sp * cp_water sp * dT) \<le> m_dot_design sp * cp_water sp * dT"
    by simp
  then show ?thesis
    using \<open>0 \<le> m_dot_design sp * cp_water sp * dT\<close>
    by (simp add: spec_transfer_power_def mult.assoc)
qed

text \<open>
  C8, as the code has it. For every \<open>dt\<close> of at least \<open>2^-37\<close> seconds (about \<open>7.3e-12\<close>)
  \<^verbatim>\<open>simulate_discharge\<close> returns: the binary64 clock then gains at least \<open>dt / 4\<close> in every
  iteration below 12 hours, so the loop runs at most \<open>\<lceil>43200 / (dt / 4)\<rceil>\<close> times. For valid
  parameters it returns a result and raises nothing. At least one sample is recorded, and
  sample \<open>i\<close> is what iteration \<open>i\<close> records: \<^verbatim>\<open>step_discharge\<close> is run on the state left by
  the first \<open>i\<close> steps, the clock stands at its value after \<open>i\<close> additions, which is below
  12 hours (so the duration, the time of the last sample, is below 12), and the sample holds
  that time in hours, the new temperature, the outlet temperature, the returned power in kW,
  the new state of charge and the new solid fraction. The last sample is the first one
  at which an exit test holds: the new state of charge is below 1 percent, or the returned
  power is below 100 W with the advanced clock past one hour, or the advanced clock is not
  below 12 hours.

  The claim as written, for every positive \<open>dt\<close>, fails, because a floating-point sum
  absorbs a summand that is too small. With \<open>dt = 2^-44\<close> seconds and a supply at 60
  degrees, the guard blocks every step (zero power, state of charge 1), and the clock never
  gets past 512 seconds, where \<open>512 + 2^-44\<close> is rounded to 512: the loop never exits
  (the counterexample after the theorem).
\<close>
theorem discharge_terminates:
  assumes "1 / 2 ^ 37 \<le> dt"
  shows "(\<exists>r. simulate_discharge sp T_supply T_return_target dt = Some r)
       \<and> (valid_specs sp \<longrightarrow>
            (\<exists>res. simulate_discharge sp T_supply T_return_target dt = Some (Inr res)
               \<and> history res \<noteq> []
               \<and> duration res < 12
               \<and> (\<forall>i<length (history res).
                     \<exists>m m' Q T_out.
                       discharge_run
                           \<lparr> specs = sp, T_sat = T_phase sp, solid_fraction = 0.05,
                             E_stored = E_storage sp * 3600000, time = 0 \<rparr>
                           (replicate i (T_supply, dt)) = Inr m
                       \<and> step_discharge m T_supply dt = Inr (m', Q, T_out)
                       \<and> history res ! i
                            = \<lparr> time_h = clock_after 0 dt i / 3600, T_sat_h = T_sat m',
                                T_out_h = T_out, Q_h = Q / 1000,
                                SOC_h = get_state_of_charge m',
                                solid_fraction_h = solid_fraction m' \<rparr>
                       \<and> clock_after 0 dt i < 12 * 3600
                       \<and> ((get_state_of_charge m' < 0.01
                              \<or> (Q < 100 \<and> clock_after 0 dt (Suc i) > 3600)
                              \<or> \<not> clock_after 0 dt (Suc i) < 12 * 3600)
                            \<longleftrightarrow> Suc i = length (history res)))))"
proof (intro conjI impI)
  let ?m = "\<lparr> specs = sp, T_sat = T_phase sp, solid_fraction = 0.05,
               E_stored = E_storage sp * 3600000, time = 0 \<rparr>"
  have z: "(0::real) \<le> 0" by simp
  from discharge_loop_returns [OF assms z enough_steps [OF assms], of ?m T_supply "[]"]
  obtain r where "discharge_loop ?m T_supply dt 0 [] = Some r" by blast
  then show "\<exists>r. simulate_discharge sp T_supply T_return_target dt = Some r"
    by (cases r) (simp_all add: simulate_discharge_start)
next
  let ?m = "\<lparr> specs = sp, T_sat = T_phase sp, solid_fraction = 0.05,
               E_stored = E_storage sp * 3600000, time = 0 \<rparr>"
  assume "valid_specs sp"
  then have v: "valid_specs (specs ?m)" by simp
  have z: "(0::real) \<le> 0" and z': "(0::real) < 12 * 3600" by simp_all
  from discharge_loop_run [OF assms z enough_steps [OF assms] z' v, of T_supply "[]"]
  obtain h where h: "discharge_loop ?m T_supply dt 0 [] = Some (Inr h)" and ne: "h \<noteq> []"
    and all: "\<forall>i<length h.
                 \<exists>m m' Q T_out.
                   discharge_run ?m (replicate i (T_supply, dt)) = Inr m
                   \<and> step_discharge m T_supply dt = Inr (m', Q, T_out)
                   \<and> h ! i = \<lparr> time_h = clock_after 0 dt i / 3600, T_sat_h = T_sat m',
                                T_out_h = T_out, Q_h = Q / 1000,
                                SOC_h = get_state_of_charge m',
                                solid_fraction_h = solid_fraction m' \<rparr>
                   \<and> clock_after 0 dt i < 12 * 3600
                   \<and> ((get_state_of_charge m' < 0.01
                          \<or> (Q < 100 \<and> clock_after 0 dt (Suc i) > 3600)
                          \<or> \<not> clock_after 0 dt (Suc i) < 12 * 3600)
                        \<longleftrightarrow> Suc i = length h)"
    by auto
  have sim: "simulate_discharge sp T_supply T_return_target dt
               = Some (Inr (summary time_h Q_h h))"
    using h by (simp add: simulate_discharge_start)
  have "length h - 1 < length h" using ne by simp
  with all obtain m m' Q T_out where
      "h ! (length h - 1) = \<lparr> time_h = clock_after 0 dt (length h - 1) / 3600, T_sat_h = T_sat m',
                                T_out_h = T_out, Q_h = Q / 1000,
                                SOC_h = get_state_of_charge m',
                                solid_fraction_h = solid_fraction m' \<rparr>"
      and "clock_after 0 dt (length h - 1) < 12 * 3600"
    by blast
  then have "time_h (h ! (length h - 1)) < 12" by simp
  then have dur: "duration (summary time_h Q_h h) < 12"
    using ne by (simp add: summary_def last_conv_nth)
  have hist: "history (summary time_h Q_h h) = h" by (simp add: summary_def)
  show "\<exists>res. simulate_discharge sp T_supply T_return_target dt = Some (Inr res)
               \<and> history res \<noteq> []
               \<and> duration res < 12
               \<and> (\<forall>i<length (history res).
                     \<exists>m m' Q T_out.
                       discharge_run ?m (replicate i (T_supply, dt)) = Inr m
                       \<and> step_discharge m T_supply dt = Inr (m', Q, T_out)
                       \<and> history res ! i
                            = \<lparr> time_h = clock_after 0 dt i / 3600, T_sat_h = T_sat m',
                                T_out_h = T_out, Q_h = Q / 1000,
                                SOC_h = get_state_of_charge m',
                                solid_fraction_h = solid_fraction m' \<rparr>
                       \<and> clock_after 0 dt i < 12 * 3600
                       \<and> ((get_state_of_charge m' < 0.01
                              \<or> (Q < 100 \<and> clock_after 0 dt (Suc i) > 3600)
                              \<or> \<not> clock_after 0 dt (Suc i) < 12 * 3600)
                            \<longleftrightarrow> Suc i = length (history res)))"
    using sim ne dur all
    by (intro exI [of _ "summary time_h Q_h h"] conjI; simp only: hist)
qed

theorem discharge_terminates_witness:
  "1 / 2 ^ 37 \<le> (60::real) \<and> valid_specs ITB100Specs_defaults
   \<and> (\<exists>res. simulate_discharge ITB100Specs_defaults 40 45 60 = Some (Inr res)
         \<and> duration res < 12
         \<and> 1 < length (history res)
         \<and> time_h (history res ! 0) = 0
         \<and> Q_h (history res ! 0) = spec_transfer_power ITB100Specs_defaults 18 / 1000)"
proof -
  let ?sp = ITB100Specs_defaults
  let ?m = "\<lparr> specs = ?sp, T_sat = T_phase ?sp, solid_fraction = 0.05,
               E_stored = E_storage ?sp * 3600000, time = 0 \<rparr>"
  let ?P = "spec_transfer_power ?sp 18"
  have z: "1 / 2 ^ 37 \<le> (60::real)" by simp
  note w = discharge_terminates [OF z, of ?sp 40 45]
  from w [THEN conjunct2, THEN mp, OF valid_defaults]
  obtain res where sim: "simulate_discharge ?sp 40 45 60 = Some (Inr res)"
    and ne: "history res \<noteq> []" and dur: "duration res < 12"
    and all: "\<forall>i<length (history res).
                     \<exists>m m' Q T_out.
                       discharge_run ?m (replicate i (40, 60)) = Inr m
                       \<and> step_discharge m 40 60 = Inr (m', Q, T_out)
                       \<and> history res ! i
                            = \<lparr> time_h = clock_after 0 60 i / 3600, T_sat_h = T_sat m',
                                T_out_h = T_out, Q_h = Q / 1000,
                                SOC_h = get_state_of_charge m',
                                solid_fraction_h = solid_fraction m' \<rparr>
                       \<and> clock_after 0 60 i < 12 * 3600
                       \<and> ((get_state_of_charge m' < 0.01
                              \<or> (Q < 100 \<and> clock_after 0 60 (Suc i) > 3600)
                              \<or> \<not> clock_after 0 60 (Suc i) < 12 * 3600)
                            \<longleftrightarrow> Suc i = length (history res))"
    by blast
  have "0 < length (history res)" using ne by simp
  with all obtain m m' Q T_out where
      m: "discharge_run ?m (replicate 0 (40, 60)) = Inr m"
      and s: "step_discharge m 40 60 = Inr (m', Q, T_out)"
      and x: "history res ! 0
                = \<lparr> time_h = clock_after 0 60 0 / 3600, T_sat_h = T_sat m',
                    T_out_h = T_out, Q_h = Q / 1000,
                    SOC_h = get_state_of_charge m',
                    solid_fraction_h = solid_fraction m' \<rparr>"
      and ex: "(get_state_of_charge m' < 0.01
                  \<or> (Q < 100 \<and> clock_after 0 60 (Suc 0) > 3600)
                  \<or> \<not> clock_after 0 60 (Suc 0) < 12 * 3600)
                \<longleftrightarrow> Suc 0 = length (history res)"
    by blast
  have m_eq: "m = ?m" using m by simp
  have g: "\<not> discharge_guard ?m 40" by (simp add: discharge_guard_def)
  have nz: "m_dot_design (specs ?m) * cp_water (specs ?m) \<noteq> 0" by simp
  from step_discharge_unguarded [OF g nz, of 60] s
  have Q: "Q = ?P" and E: "E_stored m' = 60156000 - ?P * 60"
    by (simp_all add: m_eq)
  have sp': "specs m' = ?sp" using step_discharge_specs [OF s] by (simp add: m_eq)
  have "?P \<le> m_dot_design ?sp * cp_water ?sp * 18"
    by (rule transfer_power_le [OF valid_defaults]) simp
  then have Pb: "?P \<le> 5576" by simp
  define q where "q = (60156000 - ?P * 60) / 60156000"
  have "1 / 100 \<le> q" unfolding q_def using Pb by simp
  then have "1 / 100 \<le> max 0 (min 1 q)" by (simp add: min_def max_def)
  moreover have "get_state_of_charge m' = max 0 (min 1 q)"
    unfolding q_def by (simp add: get_state_of_charge_def sp' E)
  ultimately have soc: "\<not> get_state_of_charge m' < 0.01" by simp
  have "float_add 0 60 \<le> 60 + 60 / 2 ^ 53"
    unfolding float_add_def using double_round_upper [of 60] by simp
  then have clk: "clock_after 0 60 (Suc 0) \<le> 61" by simp
  have "Suc 0 \<noteq> length (history res)" using ex soc clk by auto
  then have len: "1 < length (history res)" using ne by (cases "history res") auto
  have t0: "time_h (history res ! 0) = 0" by (simp add: x)
  have q0: "Q_h (history res ! 0) = ?P / 1000" by (simp add: x Q)
  show ?thesis using z valid_defaults sim dur len t0 q0 by blast
qed

theorem stalled_clock_counterexample:
  "(0::real) < 1 / 2 ^ 44 \<and> simulate_discharge ITB100Specs_defaults 60 45 (1 / 2 ^ 44) = None"
proof -
  let ?sp = ITB100Specs_defaults
  let ?m = "\<lparr> specs = ?sp, T_sat = T_phase ?sp, solid_fraction = 0.05,
               E_stored = E_storage ?sp * 3600000, time = 0 \<rparr>"
  have g: "discharge_guard ?m 60" by (simp add: discharge_guard_def)
  have soc: "1 \<le> get_state_of_charge ?m" by (simp add: get_state_of_charge_def)
  have d: "(0::real) < 1 / 2 ^ 44" "(1::real) / 2 ^ 44 \<le> 1 / 2 ^ 44" by simp_all
  have t: "(0::real) \<le> 0" "(0::real) \<le> 512" by simp_all
  have "discharge_loop ?m 60 (1 / 2 ^ 44) 0 [] = None"
  proof (cases "discharge_loop ?m 60 (1 / 2 ^ 44) 0 []")
    case None
    then show ?thesis .
  next
    case (Some r)
    from stalled_loop [OF Some] g soc d t show ?thesis by blast
  qed
  then have "simulate_discharge ?sp 60 45 (1 / 2 ^ 44) = None"
    by (simp add: simulate_discharge_start)
  with d(1) show ?thesis by blast
qed

lemma step_charge_energy_eq:
  assumes "step_charge self T_in dt = Inr (self', Q, T_out)"
  shows "E_stored self' = E_stored self + Q * dt"
proof (cases "charge_guard self T_in")
  case True
  then show ?thesis using step_charge_guarded [of self T_in dt] assms by simp
next
  case False
  have "m_dot_design (specs self) * cp_water (specs self) \<noteq> 0"
    using assms False by (auto simp: step_charge_def charge_guard_def Let_def split: if_splits)
  from step_charge_unguarded [OF False this, of dt] assms
  show ?thesis by auto
qed

lemma charge_loop_samples:
  assumes "charge_loop model dt tm hist solar_profile T_collector = Inr h"
  shows "\<exists>h2. h = hist @ h2 \<and> length h2 \<le> length solar_profile
           \<and> (solar_profile \<noteq> [] \<longrightarrow> h2 \<noteq> [])
           \<and> (\<forall>i<length h2.
                 \<exists>m m' Q T_out.
                   charge_run model (map (\<lambda>T. (T, dt)) (take i T_collector)) = Inr m
                   \<and> step_charge m (T_collector ! i) dt = Inr (m', Q, T_out)
                   \<and> Q_h (h2 ! i) = min Q (solar_profile ! i) / 1000
                   \<and> Q_available_h (h2 ! i) = solar_profile ! i / 1000
                   \<and> Q_h (h2 ! i) \<le> Q_available_h (h2 ! i)
                   \<and> E_stored m' = E_stored m + Q * dt
                   \<and> T_sat_h (h2 ! i) = T_sat m'
                   \<and> solid_fraction_h (h2 ! i) = solid_fraction m'
                   \<and> SOC_h (h2 ! i) = get_state_of_charge m')"
  using assms
proof (induction solar_profile arbitrary: model tm hist T_collector h)
  case Nil
  then show ?case by simp
next
  case (Cons Q_available solar_profile)
  show ?case
  proof (cases T_collector)
    case Nil
    then show ?thesis using Cons.prems by simp
  next
    case Tc: (Cons T_in rest)
    show ?thesis
    proof (cases "step_charge model T_in dt")
      case (Inl e)
      then show ?thesis using Cons.prems Tc by simp
    next
      case (Inr r)
      obtain model' Q T_out where r: "r = (model', Q, T_out)" by (cases r)
      have s: "step_charge model T_in dt = Inr (model', Q, T_out)" using Inr r by simp
      define x where "x = \<lparr> time_h = tm / 3600, T_sat_h = T_sat model', T_out_h = T_out,
                             Q_h = min Q Q_available / 1000, SOC_h = get_state_of_charge model',
                             solid_fraction_h = solid_fraction model',
                             Q_available_h = Q_available / 1000 \<rparr>"
      have first: "\<exists>m m' Qe T_o.
                   charge_run model (map (\<lambda>T. (T, dt)) (take 0 T_collector)) = Inr m
                   \<and> step_charge m (T_collector ! 0) dt = Inr (m', Qe, T_o)
                   \<and> Q_h x = min Qe ((Q_available # solar_profile) ! 0) / 1000
                   \<and> Q_available_h x = (Q_available # solar_profile) ! 0 / 1000
                   \<and> Q_h x \<le> Q_available_h x
                   \<and> E_stored m' = E_stored m + Qe * dt
                   \<and> T_sat_h x = T_sat m'
                   \<and> solid_fraction_h x = solid_fraction m'
                   \<and> SOC_h x = get_state_of_charge m'"
        using s step_charge_energy_eq [OF s] by (simp add: x_def Tc)
      show ?thesis
      proof (cases "get_state_of_charge model' \<ge> 0.99")
        case True
        then have h: "h = hist @ [x]"
          using Cons.prems Tc s by (simp add: x_def Let_def)
        have "\<forall>i<length [x].
                 \<exists>m m' Qe T_o.
                   charge_run model (map (\<lambda>T. (T, dt)) (take i T_collector)) = Inr m
                   \<and> step_charge m (T_collector ! i) dt = Inr (m', Qe, T_o)
                   \<and> Q_h ([x] ! i) = min Qe ((Q_available # solar_profile) ! i) / 1000
                   \<and> Q_available_h ([x] ! i) = (Q_available # solar_profile) ! i / 1000
                   \<and> Q_h ([x] ! i) \<le> Q_available_h ([x] ! i)
                   \<and> E_stored m' = E_stored m + Qe * dt
                   \<and> T_sat_h ([x] ! i) = T_sat m'
                   \<and> solid_fraction_h ([x] ! i) = solid_fraction m'
                   \<and> SOC_h ([x] ! i) = get_state_of_charge m'"
          using first by simp
        then show ?thesis using h by (intro exI [of _ "[x]"]) simp
      next
        case False
        then have "charge_loop model' dt (float_add tm dt) (hist @ [x]) solar_profile rest = Inr h"
          using Cons.prems Tc s by (simp add: x_def Let_def)
        from Cons.IH [OF this]
        obtain h3 where h3: "h = (hist @ [x]) @ h3" and len: "length h3 \<le> length solar_profile"
          and all: "\<forall>i<length h3.
                 \<exists>m m' Qe T_o.
                   charge_run model' (map (\<lambda>T. (T, dt)) (take i rest)) = Inr m
                   \<and> step_charge m (rest ! i) dt = Inr (m', Qe, T_o)
                   \<and> Q_h (h3 ! i) = min Qe (solar_profile ! i) / 1000
                   \<and> Q_available_h (h3 ! i) = solar_profile ! i / 1000
                   \<and> Q_h (h3 ! i) \<le> Q_available_h (h3 ! i)
                   \<and> E_stored m' = E_stored m + Qe * dt
                   \<and> T_sat_h (h3 ! i) = T_sat m'
                   \<and> solid_fraction_h (h3 ! i) = solid_fraction m'
                   \<and> SOC_h (h3 ! i) = get_state_of_charge m'"
          by blast
        have "\<forall>i<length (x # h3).
                 \<exists>m m' Qe T_o.
                   charge_run model (map (\<lambda>T. (T, dt)) (take i T_collector)) = Inr m
                   \<and> step_charge m (T_collector ! i) dt = Inr (m', Qe, T_o)
                   \<and> Q_h ((x # h3) ! i) = min Qe ((Q_available # solar_profile) ! i) / 1000
                   \<and> Q_available_h ((x # h3) ! i) = (Q_available # solar_profile) ! i / 1000
                   \<and> Q_h ((x # h3) ! i) \<le> Q_available_h ((x # h3) ! i)
                   \<and> E_stored m' = E_stored m + Qe * dt
                   \<and> T_sat_h ((x # h3) ! i) = T_sat m'
                   \<and> solid_fraction_h ((x # h3) ! i) = solid_fraction m'
                   \<and> SOC_h ((x # h3) ! i) = get_state_of_charge m'"
        proof (intro allI impI)
          fix i assume i: "i < length (x # h3)"
          show "\<exists>m m' Qe T_o.
                   charge_run model (map (\<lambda>T. (T, dt)) (take i T_collector)) = Inr m
                   \<and> step_charge m (T_collector ! i) dt = Inr (m', Qe, T_o)
                   \<and> Q_h ((x # h3) ! i) = min Qe ((Q_available # solar_profile) ! i) / 1000
                   \<and> Q_available_h ((x # h3) ! i) = (Q_available # solar_profile) ! i / 1000
                   \<and> Q_h ((x # h3) ! i) \<le> Q_available_h ((x # h3) ! i)
                   \<and> E_stored m' = E_stored m + Qe * dt
                   \<and> T_sat_h ((x # h3) ! i) = T_sat m'
                   \<and> solid_fraction_h ((x # h3) ! i) = solid_fraction m'
                   \<and> SOC_h ((x # h3) ! i) = get_state_of_charge m'"
          proof (cases i)
            case 0
            then show ?thesis using first by simp
          next
            case (Suc j)
            then have "j < length h3" using i by simp
            with all show ?thesis using Suc s by (simp add: Tc)
          qed
        qed
        then show ?thesis using h3 len by (intro exI [of _ "x # h3"]) simp
      qed
    qed
  qed
qed

lemma charge_loop_total:
  assumes "valid_specs (specs model)" and "length solar_profile \<le> length T_collector"
  shows "\<exists>h. charge_loop model dt tm hist solar_profile T_collector = Inr h"
  using assms
proof (induction solar_profile arbitrary: model tm hist T_collector)
  case Nil
  then show ?case by simp
next
  case (Cons Q_available solar_profile)
  then obtain T_in rest where Tc: "T_collector = T_in # rest" by (cases T_collector) auto
  obtain model' Q T_out where s: "step_charge model T_in dt = Inr (model', Q, T_out)"
    using step_charge_total [OF Cons.prems(1)] by blast
  have v': "valid_specs (specs model')"
    using Cons.prems(1) by (simp only: step_charge_specs [OF s])
  have "length solar_profile \<le> length rest" using Cons.prems(2) Tc by simp
  from Cons.IH [OF v' this] show ?case using Tc s by (simp add: Let_def)
qed

lemma simulate_charge_start:
  "simulate_charge sp solar_profile T_collector dt =
     (case charge_loop \<lparr> specs = sp, T_sat = 20, solid_fraction = 1, E_stored = 0, time = 0 \<rparr>
             dt 0 [] solar_profile T_collector of
        Inl e \<Rightarrow> Inl e
      | Inr hist \<Rightarrow> Inr (summary time_h Q_h hist))"
  by (simp add: simulate_charge_def ThermalBatteryModel_init_def reset_state_def
      depleted_model_def)

text \<open>
  C5. Let \<^verbatim>\<open>simulate_charge\<close>, for valid parameters, return a result. It holds at most one sample per entry of
  the profile, and at every sample index \<open>i\<close>, with \<open>m\<close> the model state after the first
  \<open>i\<close> charge steps and \<open>Q\<close> the power \<^verbatim>\<open>step_charge\<close> computes in step \<open>i\<close>: the
  recorded absorbed power is \<open>min Q (solar_profile ! i)\<close> (recorded in kW, so divided by
  1000) and so never exceeds the recorded available power \<open>solar_profile ! i / 1000\<close>,
  while the state the step leaves has stored energy \<open>E_stored m + Q * dt\<close>, with the
  unclamped \<open>Q\<close>: the clipped energy is not fed back. For valid parameters and a
  \<^verbatim>\<open>T_collector\<close> at least as long as the profile the call does return a result.
\<close>
theorem charge_clamp_reported_only:
  "(valid_specs sp \<and> simulate_charge sp solar_profile T_collector dt = Inr res \<longrightarrow>
      length (history res) \<le> length solar_profile
      \<and> (solar_profile \<noteq> [] \<longrightarrow> history res \<noteq> [])
      \<and> (\<forall>i<length (history res).
            \<exists>m m' Q T_out.
              charge_run \<lparr> specs = sp, T_sat = 20, solid_fraction = 1, E_stored = 0, time = 0 \<rparr>
                  (map (\<lambda>T. (T, dt)) (take i T_collector)) = Inr m
              \<and> step_charge m (T_collector ! i) dt = Inr (m', Q, T_out)
              \<and> Q_h (history res ! i) = min Q (solar_profile ! i) / 1000
              \<and> Q_available_h (history res ! i) = solar_profile ! i / 1000
              \<and> Q_h (history res ! i) \<le> Q_available_h (history res ! i)
              \<and> E_stored m' = E_stored m + Q * dt
              \<and> T_sat_h (history res ! i) = T_sat m'
              \<and> solid_fraction_h (history res ! i) = solid_fraction m'
              \<and> SOC_h (history res ! i) = get_state_of_charge m'))
   \<and> (valid_specs sp \<and> length solar_profile \<le> length T_collector \<longrightarrow>
        (\<exists>r. simulate_charge sp solar_profile T_collector dt = Inr r))"
proof (intro conjI impI)
  let ?start = "\<lparr> specs = sp, T_sat = 20, solid_fraction = 1, E_stored = 0, time = 0 \<rparr>"
  assume "valid_specs sp \<and> simulate_charge sp solar_profile T_collector dt = Inr res"
  then have a: "simulate_charge sp solar_profile T_collector dt = Inr res" by (rule conjunct2)
  then obtain h where h: "charge_loop ?start dt 0 [] solar_profile T_collector = Inr h"
    and res: "res = summary time_h Q_h h"
    by (auto simp: simulate_charge_start split: sum.splits)
  have hist: "history res = h" by (simp add: res summary_def)
  from charge_loop_samples [OF h]
  show "length (history res) \<le> length solar_profile"
    and "solar_profile \<noteq> [] \<Longrightarrow> history res \<noteq> []"
    and "\<forall>i<length (history res).
            \<exists>m m' Q T_out.
              charge_run ?start (map (\<lambda>T. (T, dt)) (take i T_collector)) = Inr m
              \<and> step_charge m (T_collector ! i) dt = Inr (m', Q, T_out)
              \<and> Q_h (history res ! i) = min Q (solar_profile ! i) / 1000
              \<and> Q_available_h (history res ! i) = solar_profile ! i / 1000
              \<and> Q_h (history res ! i) \<le> Q_available_h (history res ! i)
              \<and> E_stored m' = E_stored m + Q * dt
              \<and> T_sat_h (history res ! i) = T_sat m'
              \<and> solid_fraction_h (history res ! i) = solid_fraction m'
              \<and> SOC_h (history res ! i) = get_state_of_charge m'"
    unfolding hist by simp_all
next
  let ?start = "\<lparr> specs = sp, T_sat = 20, solid_fraction = 1, E_stored = 0, time = 0 \<rparr>"
  assume a: "valid_specs sp \<and> length solar_profile \<le> length T_collector"
  then have "valid_specs (specs ?start)" by simp
  from charge_loop_total [OF this conjunct2 [OF a], of dt 0 "[]"]
  show "\<exists>r. simulate_charge sp solar_profile T_collector dt = Inr r"
    by (auto simp: simulate_charge_start)
qed

theorem charge_clamp_reported_only_witness:
  "\<exists>res. simulate_charge ITB100Specs_defaults [0] [80] 60 = Inr res
     \<and> history res \<noteq> []
     \<and> Q_h (history res ! 0) = 0
     \<and> Q_available_h (history res ! 0) = 0
     \<and> T_sat_h (history res ! 0) = T_sat (fst (projr (step_charge (example_model 20 1 0) 80 60)))
     \<and> E_stored (fst (projr (step_charge (example_model 20 1 0) 80 60)))
          = spec_transfer_power ITB100Specs_defaults 60 * 60
     \<and> 0 < spec_transfer_power ITB100Specs_defaults 60"
proof -
  let ?start = "\<lparr> specs = ITB100Specs_defaults, T_sat = 20, solid_fraction = 1,
                   E_stored = 0, time = 0 \<rparr>"
  have start: "?start = example_model 20 1 0" by (simp add: example_model_def)
  note w = charge_clamp_reported_only [of ITB100Specs_defaults "[0]" "[80]" 60]
  have "valid_specs ITB100Specs_defaults \<and> length [0::real] \<le> length [80::real]"
    using valid_defaults by simp
  from w [THEN conjunct2, THEN mp, OF this]
  obtain res where sim: "simulate_charge ITB100Specs_defaults [0] [80] 60 = Inr res" by blast
  from w [of res, THEN conjunct1, THEN mp, OF conjI [OF valid_defaults sim]]
  have ne: "history res \<noteq> []"
    and all: "\<forall>i<length (history res).
            \<exists>m m' Q T_out.
              charge_run ?start (map (\<lambda>T. (T, 60)) (take i [80])) = Inr m
              \<and> step_charge m ([80] ! i) 60 = Inr (m', Q, T_out)
              \<and> Q_h (history res ! i) = min Q ([0] ! i) / 1000
              \<and> Q_available_h (history res ! i) = [0] ! i / 1000
              \<and> Q_h (history res ! i) \<le> Q_available_h (history res ! i)
              \<and> E_stored m' = E_stored m + Q * 60
              \<and> T_sat_h (history res ! i) = T_sat m'
              \<and> solid_fraction_h (history res ! i) = solid_fraction m'
              \<and> SOC_h (history res ! i) = get_state_of_charge m'"
    by simp_all
  have "0 < length (history res)" using ne by simp
  with all obtain m m' Q T_out where
      m: "charge_run ?start (map (\<lambda>T. (T, 60)) (take 0 [80])) = Inr m"
      and s: "step_charge m ([80] ! 0) 60 = Inr (m', Q, T_out)"
      and q: "Q_h (history res ! 0) = min Q ([0] ! 0) / 1000"
      and qa: "Q_available_h (history res ! 0) = [0] ! 0 / 1000"
      and e: "E_stored m' = E_stored m + Q * 60"
      and t: "T_sat_h (history res ! 0) = T_sat m'"
    by blast
  have m_eq: "m = example_model 20 1 0" using m start by simp
  have s': "step_charge (example_model 20 1 0) 80 60 = Inr (m', Q, T_out)"
    using s m_eq by simp
  have g: "\<not> charge_guard (example_model 20 1 0) 80" by (simp add: charge_guard_def)
  have nz: "m_dot_design (specs (example_model 20 1 0)) * cp_water (specs (example_model 20 1 0)) \<noteq> 0"
    by simp
  from step_charge_unguarded [OF g nz, of 60] s'
  have Q: "Q = spec_transfer_power ITB100Specs_defaults 60" by simp
  have P: "0 < spec_transfer_power ITB100Specs_defaults 60"
    by (rule transfer_power_pos [OF valid_defaults]) simp
  have "Q_h (history res ! 0) = 0" using q Q P by simp
  moreover have "Q_available_h (history res ! 0) = 0" using qa by simp
  moreover have "E_stored (fst (projr (step_charge (example_model 20 1 0) 80 60)))
          = spec_transfer_power ITB100Specs_defaults 60 * 60"
    using e m_eq Q by (simp add: s')
  moreover have "T_sat_h (history res ! 0)
          = T_sat (fst (projr (step_charge (example_model 20 1 0) 80 60)))"
    using t by (simp add: s')
  ultimately show ?thesis using sim ne P by blast
qed

end
